theory Spec2Isabelle
  imports Complex_Main
begin

section \<open>Checkpoint manager (\<^verbatim>\<open>save_checkpoint\<close>, train.py lines 175-193)\<close>

text \<open>
  \<^verbatim>\<open>save_checkpoint\<close> builds a path and then runs
  \<^verbatim>\<open>
    save_num = 0
    while (save_num < 10):
        try:
            torch.save(..., checkpoint_path)
            logger.info("Save checkpoint to {}".format(checkpoint_path))
            break
        except:
            save_num += 1
    if save_num == 10:
        logger.info("Failed to save checkpoint after 10 trails.")
    return
  \<close>
  The file system is the only collaborator: whether the body of the \<^verbatim>\<open>try\<close> block
  goes through on a given pass is not decided by the program. It is modelled by a
  predicate \<open>ok\<close> on the number of the pass (0 for the first pass). The bare
  \<^verbatim>\<open>except:\<close> catches every exception of the block, so a pass either ends the loop or
  adds one to \<^verbatim>\<open>save_num\<close>. The function returns \<^verbatim>\<open>None\<close> on both paths; what it
  reports is the message it logs.
\<close>

datatype log_msg =
    SaveCheckpointTo int int
  | FailedToSave
  | TrainLog int int
  | ValLog real nat

text \<open>
  The state of the loop: \<open>save_num\<close> as in the source, and two observations that the
  source does not store: the number of passes through the \<^verbatim>\<open>try\<close> block made so far
  (\<open>attempts\<close>) and the messages logged (\<open>msgs\<close>).
\<close>

record save_state =
  save_num :: nat
  attempts :: nat
  msgs :: "log_msg list"

function save_loop :: "(nat \<Rightarrow> bool) \<Rightarrow> int \<Rightarrow> int \<Rightarrow> save_state \<Rightarrow> save_state" where
  "save_loop ok epoch gs s =
     (if save_num s < 10 then
        (if ok (attempts s)
         then s\<lparr>attempts := attempts s + 1, msgs := msgs s @ [SaveCheckpointTo epoch gs]\<rparr>
         else save_loop ok epoch gs (s\<lparr>save_num := save_num s + 1, attempts := attempts s + 1\<rparr>))
      else s)"
  by pat_completeness auto
termination
  by (relation "measure (\<lambda>(ok, epoch, gs, s). 10 - save_num s)") auto

declare save_loop.simps [simp del]

definition save_checkpoint :: "(nat \<Rightarrow> bool) \<Rightarrow> int \<Rightarrow> int \<Rightarrow> save_state" where
  "save_checkpoint ok epoch gs =
     (let s = save_loop ok epoch gs \<lparr>save_num = 0, attempts = 0, msgs = []\<rparr>
      in if save_num s = 10 then s\<lparr>msgs := msgs s @ [FailedToSave]\<rparr> else s)"

text \<open>The first pass that goes through, if one of the first \<open>n\<close> does.\<close>

definition first_ok :: "(nat \<Rightarrow> bool) \<Rightarrow> nat \<Rightarrow> nat option" where
  "first_ok ok n = (case filter ok [0..<n] of [] \<Rightarrow> None | k # _ \<Rightarrow> Some k)"

section \<open>Loss engine (train.py lines 76-92, and again 140-158)\<close>

text \<open>
  A two-dimensional tensor is the list of its rows. The entries, 32-bit floats in the
  program, are real numbers here: rounding and overflow are not modelled. Where a
  theorem needs the shapes to fit (the program's tensor operations raise otherwise), it
  says so with \<open>shaped\<close>.
\<close>

type_synonym matrix = "real list list"

definition shaped :: "nat \<Rightarrow> nat \<Rightarrow> matrix \<Rightarrow> bool" where
  "shaped b d m = (length m = b \<and> list_all (\<lambda>row. length row = d) m)"

subsection \<open>Normalisation (lines 76-77)\<close>

text \<open>
  \<^verbatim>\<open>image_features = image_features / image_features.norm(dim=-1, keepdim=True)\<close>
  divides every entry by the norm that \<^verbatim>\<open>norm\<close> returned for its row. No line tests that
  norm, and the division of tensors raises nothing: it returns a value for every
  divisor. The entries of the embeddings are finite numbers. The norm of a row is a
  32-bit float computed by the library; it is not derived here from the entries (it can
  be 0 for a row of tiny entries and infinite for a row of huge ones), it is given with
  the row. \<open>tdiv x n\<close> is the quotient of the finite number \<open>x\<close> by the norm \<open>n\<close>: by a
  finite norm other than zero the quotient (rounding and overflow are not modelled), by zero
  \<open>nan\<close> for 0/0 and an infinity of the sign of \<open>x\<close> otherwise, by an infinite norm
  zero, by \<open>nan\<close> \<open>nan\<close>.
\<close>

datatype tnum = Fin real | PInf | NInf | NaN

fun tdiv :: "real \<Rightarrow> tnum \<Rightarrow> tnum" where
  "tdiv x (Fin y) =
     (if y \<noteq> 0 then Fin (x / y)
      else if x = 0 then NaN
      else if 0 < x then PInf else NInf)"
| "tdiv x PInf = Fin 0"
| "tdiv x NInf = Fin 0"
| "tdiv x NaN = NaN"

definition normalize_row :: "tnum \<Rightarrow> real list \<Rightarrow> tnum list" where
  "normalize_row n row = map (\<lambda>x. tdiv x n) row"

text \<open>\<open>norms\<close> holds the norm of each row, in the order of the rows.\<close>

definition normalize_rows :: "tnum list \<Rightarrow> matrix \<Rightarrow> tnum list list" where
  "normalize_rows norms m = map (\<lambda>(n, row). normalize_row n row) (zip norms m)"

subsection \<open>Similarity matrices (lines 84-85)\<close>

text \<open>
  \<^verbatim>\<open>logits_per_image = logit_scale * image_features @ text_features.t()\<close>
  \<^verbatim>\<open>logits_per_text = logit_scale * text_features @ image_features.t()\<close>
  In Python \<^verbatim>\<open>*\<close> and \<^verbatim>\<open>@\<close> have the same precedence and associate to the left:
  the scale multiplies the left factor first. From here on the features are the
  normalised ones, taken to be finite, and the products and sums are those of the real
  numbers: the rounding of the 32-bit floats and the order in which the library adds
  up a matrix product are not modelled. \<open>mat_t\<close> is the transpose of a matrix
  whose rows are not empty.
\<close>

definition scale_mat :: "real \<Rightarrow> matrix \<Rightarrow> matrix" where
  "scale_mat s m = map (map (\<lambda>x. s * x)) m"

definition mat_t :: "matrix \<Rightarrow> matrix" where
  "mat_t m = transpose m"

definition dot :: "real list \<Rightarrow> real list \<Rightarrow> real" where
  "dot xs ys = sum_list (map (\<lambda>(x, y). x * y) (zip xs ys))"

definition matmul :: "matrix \<Rightarrow> matrix \<Rightarrow> matrix" where
  "matmul a b = map (\<lambda>row. map (\<lambda>col. dot row col) (mat_t b)) a"

definition logits_per_image :: "real \<Rightarrow> matrix \<Rightarrow> matrix \<Rightarrow> matrix" where
  "logits_per_image logit_scale image_features text_features =
     matmul (scale_mat logit_scale image_features) (mat_t text_features)"

definition logits_per_text :: "real \<Rightarrow> matrix \<Rightarrow> matrix \<Rightarrow> matrix" where
  "logits_per_text logit_scale image_features text_features =
     matmul (scale_mat logit_scale text_features) (mat_t image_features)"

subsection \<open>Match count (lines 86, 88 and 151, 153)\<close>

text \<open>
  \<^verbatim>\<open>labels = torch.arange(len(logits_per_image))\<close>
  \<^verbatim>\<open>train_img_acc += (logits_per_image.argmax()==labels).sum()\<close>
  \<^verbatim>\<open>argmax()\<close> is called with no \<^verbatim>\<open>dim\<close>: it returns one number, the index of the
  largest entry of the flattened tensor (the first one among equals). The comparison
  with \<^verbatim>\<open>labels\<close> broadcasts that number against every label, and \<^verbatim>\<open>sum\<close> counts the
  labels equal to it. On a tensor with no entry \<^verbatim>\<open>argmax\<close> raises.
\<close>

datatype error = ZeroDivisionError | NameError | RuntimeError

fun argmax_from :: "real \<Rightarrow> nat \<Rightarrow> nat \<Rightarrow> real list \<Rightarrow> nat" where
  "argmax_from best best_i i [] = best_i"
| "argmax_from best best_i i (x # xs) =
     (if best < x then argmax_from x i (i + 1) xs else argmax_from best best_i (i + 1) xs)"

definition argmax :: "real list \<Rightarrow> error + nat" where
  "argmax xs = (case xs of [] \<Rightarrow> Inl RuntimeError | x # rest \<Rightarrow> Inr (argmax_from x 0 1 rest))"

definition labels_of :: "matrix \<Rightarrow> nat list" where
  "labels_of m = [0..<length m]"

definition acc_increment :: "matrix \<Rightarrow> error + nat" where
  "acc_increment logits =
     (case argmax (concat logits) of
        Inl e \<Rightarrow> Inl e
      | Inr a \<Rightarrow> Inr (length (filter (\<lambda>l. a = l) (labels_of logits))))"

text \<open>
  What section 4.2 (5) of the specification describes instead, for comparison with
  \<open>acc_increment\<close>: the number of rows whose own largest entry (the first one among
  equals) stands in the column of the row's index.
\<close>

definition spec_rowwise_matches :: "matrix \<Rightarrow> nat" where
  "spec_rowwise_matches logits =
     length (filter (\<lambda>i. argmax (logits ! i) = Inr i) [0..<length logits])"

subsection \<open>Cross entropy and combined loss (lines 89-92)\<close>

text \<open>
  \<^verbatim>\<open>F.cross_entropy(logits, labels)\<close> with its default mean reduction: the mean over
  the rows of the negated log-softmax at the row's label.
\<close>

definition cross_entropy :: "matrix \<Rightarrow> nat list \<Rightarrow> real" where
  "cross_entropy logits labels =
     sum_list (map (\<lambda>(row, l). ln (sum_list (map exp row)) - row ! l) (zip logits labels))
       / real (length logits)"

record engine_out =
  acc_inc :: nat
  image_loss :: real
  text_loss :: real

definition loss_engine :: "real \<Rightarrow> matrix \<Rightarrow> matrix \<Rightarrow> error + engine_out" where
  "loss_engine logit_scale image_features text_features =
     (let lpi = logits_per_image logit_scale image_features text_features;
          lpt = logits_per_text logit_scale image_features text_features;
          labels = labels_of lpi
      in case acc_increment lpi of
           Inl e \<Rightarrow> Inl e
         | Inr a \<Rightarrow> Inr \<lparr>acc_inc = a,
                         image_loss = cross_entropy lpi labels,
                         text_loss = cross_entropy lpt labels\<rparr>)"

section \<open>Training orchestrator (\<^verbatim>\<open>train\<close>, train.py lines 24-172)\<close>

text \<open>
  The configuration values that \<^verbatim>\<open>train\<close> reads for its control flow. They are
  Python integers loaded from a file, so nothing keeps them positive.
\<close>

record config =
  n_gpu :: int
  gradient_accumulation_steps :: int
  num_train_epochs :: int
  logging_steps :: int
  save_steps :: int

text \<open>
  The collaborators, none of which is in the file: the model, the optimizer, the
  scheduler and the file system. \<open>'w\<close> is everything they own apart from the raw
  \<^verbatim>\<open>logit_scale\<close> parameter (the other parameters, the gradients, the optimizer's
  and the scheduler's state), \<open>'b\<close> is a batch.
  \<^item> \<open>engine mode w s b\<close>: the forward pass of the model on batch \<open>b\<close> in the given
    mode (\<open>True\<close> after \<^verbatim>\<open>model.train()\<close>, \<open>False\<close> after \<^verbatim>\<open>model.eval()\<close>), followed
    by the loss engine with the exponentiated scale \<open>s\<close>;
  \<^item> \<open>backward w ls b k\<close>: the model and its gradients after the forward pass and
    \<^verbatim>\<open>loss.backward()\<close> on the loss divided by \<open>k\<close>;
  \<^item> \<open>optimizer_step w ls\<close>: \<^verbatim>\<open>optimizer.step()\<close>, which also updates \<^verbatim>\<open>logit_scale\<close>;
  \<^item> \<open>scheduler_step\<close>, \<open>zero_grad\<close>: \<^verbatim>\<open>scheduler.step()\<close>, \<^verbatim>\<open>model.zero_grad()\<close>;
  \<^item> \<open>torch_save c k\<close>: whether pass \<open>k\<close> of the call number \<open>c\<close> of
    \<^verbatim>\<open>save_checkpoint\<close> goes through.
  An exception raised inside a collaborator is not modelled; \<^verbatim>\<open>train\<close> catches none.
  The calls to \<^verbatim>\<open>wandb\<close> are left out. A data loader is the list of its batches,
  the same in every epoch: \<^verbatim>\<open>len\<close> of it is the length of the list.
\<close>

record ('w, 'b) collab =
  engine :: "bool \<Rightarrow> 'w \<Rightarrow> real \<Rightarrow> 'b \<Rightarrow> engine_out"
  backward :: "'w \<Rightarrow> real \<Rightarrow> 'b \<Rightarrow> real \<Rightarrow> 'w"
  optimizer_step :: "'w \<Rightarrow> real \<Rightarrow> 'w \<times> real"
  scheduler_step :: "'w \<Rightarrow> 'w"
  zero_grad :: "'w \<Rightarrow> 'w"
  torch_save :: "nat \<Rightarrow> nat \<Rightarrow> bool"

text \<open>
  The state that \<^verbatim>\<open>train\<close> mutates. \<open>optimizer_steps\<close> and \<open>scheduler_steps\<close> count the
  calls of \<^verbatim>\<open>optimizer.step()\<close> and \<^verbatim>\<open>scheduler.step()\<close>; \<open>scheduler_args\<close> are the
  \<^verbatim>\<open>num_warmup_steps\<close> and \<^verbatim>\<open>num_training_steps\<close> the scheduler was built with;
  \<open>checkpoints\<close> lists the calls of \<^verbatim>\<open>save_checkpoint\<close> (epoch, global step, outcome);
  \<open>log\<close> is what \<^verbatim>\<open>logger.info\<close> received after the banner.
\<close>

record 'w tstate =
  global_step :: int
  global_loss :: real
  logit_scale :: real
  learner :: 'w
  training_mode :: bool
  train_img_acc :: nat
  optimizer_steps :: nat
  scheduler_steps :: nat
  scheduler_args :: "int \<times> int"
  checkpoints :: "(int \<times> int \<times> save_state) list"
  log :: "log_msg list"

subsection \<open>Set-up (lines 34-40)\<close>

text \<open>
  \<^verbatim>\<open>t_total = len(train_dataloader) // config.gradient_accumulation_steps* config.num_train_epochs\<close>
  \<^verbatim>\<open>num_warmup_steps = int(0.20 * t_total)\<close>
  Python's \<^verbatim>\<open>//\<close> rounds to the floor, as \<open>div\<close> on \<open>int\<close> does, and raises on a zero
  divisor; \<^verbatim>\<open>int\<close> of a float drops the fraction, rounding towards zero.
  \<^verbatim>\<open>0.20 * t_total\<close> is a product of doubles: the literal is the double nearest to
  one fifth, \<^verbatim>\<open>t_total\<close> is converted to the nearest double, and the product is
  rounded to the nearest double, ties going to the even significand.
\<close>

definition t_total_of :: "nat \<Rightarrow> config \<Rightarrow> error + int" where
  "t_total_of num_batches cfg =
     (if gradient_accumulation_steps cfg = 0 then Inl ZeroDivisionError
      else Inr (int num_batches div gradient_accumulation_steps cfg * num_train_epochs cfg))"

definition py_int :: "real \<Rightarrow> int" where
  "py_int x = (if 0 \<le> x then \<lfloor>x\<rfloor> else \<lceil>x\<rceil>)"

text \<open>The nearest integer, the even one of two that are equally near.\<close>

definition half_even :: "real \<Rightarrow> int" where
  "half_even x =
     (let f = \<lfloor>x\<rfloor>; r = x - of_int f
      in if r < 1 / 2 then f
         else if 1 / 2 < r then f + 1
         else if even f then f else f + 1)"

text \<open>
  The double nearest to \<open>x\<close>: a multiple of \<open>2 ^ (e - 52)\<close> by an integer of at most 53
  bits, where \<open>2 ^ e \<le> \<bar>x\<bar> < 2 ^ (e + 1)\<close>. This is the rounding of the normal doubles;
  it stands for the program's as long as the magnitude of \<^verbatim>\<open>t_total\<close> stays below
  \<open>2 ^ 1023\<close> (beyond the largest double the conversion raises, which is not modelled).
\<close>

definition round_double :: "real \<Rightarrow> real" where
  "round_double x =
     (if x = 0 then 0
      else
        let e = \<lfloor>Transcendental.log 2 \<bar>x\<bar>\<rfloor>;
            u = 2 powr (of_int e - 52)
        in u * of_int (half_even (x / u)))"

text \<open>The value of the literal \<^verbatim>\<open>0.20\<close>: \<open>3602879701896397 / 2 ^ 54\<close>.\<close>

definition double_0_20 :: real where
  "double_0_20 = 3602879701896397 / 18014398509481984"

definition float_0_20_times :: "int \<Rightarrow> real" where
  "float_0_20_times t_total = round_double (double_0_20 * round_double (real_of_int t_total))"

definition num_warmup_steps_of :: "int \<Rightarrow> int" where
  "num_warmup_steps_of t_total = py_int (float_0_20_times t_total)"

subsection \<open>One training step (lines 66-124)\<close>

text \<open>
  \<^verbatim>\<open>torch.clamp(x, lo, hi)\<close> on a finite \<open>x\<close>. The raw scale is a real number in this
  model: a run in which it has become \<open>nan\<close>, which \<^verbatim>\<open>torch.clamp\<close> would hand back
  unchanged, is outside it.
\<close>

definition clamp :: "real \<Rightarrow> real \<Rightarrow> real \<Rightarrow> real" where
  "clamp x lo hi = min (max x lo) hi"

text \<open>
  Lines 122-124: the call of \<^verbatim>\<open>save_checkpoint\<close>, recorded in the state with its
  outcome and its messages.
\<close>

definition do_save :: "('w, 'b) collab \<Rightarrow> int \<Rightarrow> int \<Rightarrow> 'w tstate \<Rightarrow> 'w tstate" where
  "do_save col epoch gs st =
     (let r = save_checkpoint (torch_save col (length (checkpoints st))) epoch gs
      in st\<lparr>checkpoints := checkpoints st @ [(epoch, gs, r)], log := log st @ msgs r\<rparr>)"

text \<open>
  Lines 105-124, the body of \<^verbatim>\<open>if (step + 1) % config.gradient_accumulation_steps == 0\<close>.
  \<^verbatim>\<open>global_step % config.logging_steps\<close> raises when \<^verbatim>\<open>logging_steps\<close> is 0. In
  \<^verbatim>\<open>(config.save_steps > 0 and global_step % config.save_steps == 0) or global_step == t_total\<close>
  the \<^verbatim>\<open>and\<close> evaluates its right operand only when the left one holds.
\<close>

definition boundary ::
  "config \<Rightarrow> ('w, 'b) collab \<Rightarrow> int \<Rightarrow> int \<Rightarrow> 'w tstate \<Rightarrow> error + 'w tstate" where
  "boundary cfg col t_total epoch st =
     (let gs = global_step st + 1;
          (w1, ls1) = optimizer_step col (learner st) (logit_scale st);
          ls2 = (if n_gpu cfg = 1 then clamp ls1 0 4.6052
                 else if n_gpu cfg > 1 then clamp ls1 0 4.6052
                 else ls1);
          w2 = scheduler_step col w1;
          w3 = zero_grad col w2;
          st1 = st\<lparr>global_step := gs, logit_scale := ls2, learner := w3,
                   optimizer_steps := optimizer_steps st + 1,
                   scheduler_steps := scheduler_steps st + 1\<rparr>
      in if logging_steps cfg = 0 then Inl ZeroDivisionError
         else
           let st2 = (if gs mod logging_steps cfg = 0
                      then st1\<lparr>log := log st1 @ [TrainLog epoch gs]\<rparr> else st1)
           in if (save_steps cfg > 0 \<and> gs mod save_steps cfg = 0) \<or> gs = t_total
              then Inr (do_save col epoch gs st2)
              else Inr st2)"

text \<open>
  Lines 73-100 for one batch, once the local \<^verbatim>\<open>logit_scale\<close> has a value: the forward
  pass and the loss engine, the match count added to \<^verbatim>\<open>train_img_acc\<close>, the loss
  divided by \<^verbatim>\<open>gradient_accumulation_steps\<close> when that is above 1, the backward pass,
  and the loss added to \<^verbatim>\<open>global_loss\<close>. \<^verbatim>\<open>loss.mean()\<close> of line 95 is the identity
  on a scalar.
\<close>

definition forward_backward ::
  "config \<Rightarrow> ('w, 'b) collab \<Rightarrow> 'b \<Rightarrow> 'w tstate \<Rightarrow> 'w tstate" where
  "forward_backward cfg col batch st =
     (let out = engine col (training_mode st) (learner st) (exp (logit_scale st)) batch;
          loss = (image_loss out + text_loss out) / 2;
          k = (if gradient_accumulation_steps cfg > 1
               then real_of_int (gradient_accumulation_steps cfg) else 1);
          loss = (if gradient_accumulation_steps cfg > 1 then loss / k else loss)
      in st\<lparr>train_img_acc := train_img_acc st + acc_inc out,
            learner := backward col (learner st) (logit_scale st) batch k,
            global_loss := global_loss st + loss\<rparr>)"

text \<open>
  Lines 67-124, one pass of the loop over the training batches. The local variable
  \<^verbatim>\<open>logit_scale\<close> is assigned under \<^verbatim>\<open>if config.n_gpu == 1\<close> and
  \<^verbatim>\<open>elif config.n_gpu > 1\<close> only, so with any other \<^verbatim>\<open>n_gpu\<close> line 84 reads an
  unbound local and raises. Line 104 takes \<^verbatim>\<open>(step + 1) % config.gradient_accumulation_steps\<close>,
  which raises on a zero divisor.
\<close>

definition train_step ::
  "config \<Rightarrow> ('w, 'b) collab \<Rightarrow> int \<Rightarrow> int \<Rightarrow> nat \<Rightarrow> 'b \<Rightarrow> 'w tstate \<Rightarrow> error + 'w tstate" where
  "train_step cfg col t_total epoch step batch st =
     (if n_gpu cfg = 1 \<or> n_gpu cfg > 1 then
        let st1 = forward_backward cfg col batch st
        in if gradient_accumulation_steps cfg = 0 then Inl ZeroDivisionError
           else if (int step + 1) mod gradient_accumulation_steps cfg = 0
           then boundary cfg col t_total epoch st1
           else Inr st1
      else Inl NameError)"

fun train_loop ::
  "config \<Rightarrow> ('w, 'b) collab \<Rightarrow> int \<Rightarrow> int \<Rightarrow> nat \<Rightarrow> 'b list \<Rightarrow> 'w tstate \<Rightarrow> error + 'w tstate" where
  "train_loop cfg col t_total epoch step [] st = Inr st"
| "train_loop cfg col t_total epoch step (batch # rest) st =
     (case train_step cfg col t_total epoch step batch st of
        Inl e \<Rightarrow> Inl e
      | Inr st' \<Rightarrow> train_loop cfg col t_total epoch (Suc step) rest st')"

subsection \<open>Validation (lines 126-169)\<close>

text \<open>
  The accumulators of the validation pass. \<^verbatim>\<open>final_step\<close> is the loop variable of
  \<^verbatim>\<open>enumerate\<close>: it has no value until the loop has run once, and line 168 reads it.
\<close>

record val_acc =
  valid_loss :: real
  valid_img :: real
  valid_txt :: real
  val_img_acc :: nat
  final_step :: "nat option"

definition valid_step ::
  "config \<Rightarrow> ('w, 'b) collab \<Rightarrow> 'w tstate \<Rightarrow> nat \<Rightarrow> 'b \<Rightarrow> val_acc \<Rightarrow> error + val_acc" where
  "valid_step cfg col st i batch v =
     (if n_gpu cfg = 1 \<or> n_gpu cfg > 1 then
        let out = engine col (training_mode st) (learner st) (exp (logit_scale st)) batch;
            loss = (image_loss out + text_loss out) / 2
        in Inr \<lparr>valid_loss = valid_loss v + loss,
                valid_img = valid_img v + image_loss out,
                valid_txt = valid_txt v + text_loss out,
                val_img_acc = val_img_acc v + acc_inc out,
                final_step = Some i\<rparr>
      else Inl NameError)"

fun valid_loop ::
  "config \<Rightarrow> ('w, 'b) collab \<Rightarrow> 'w tstate \<Rightarrow> nat \<Rightarrow> 'b list \<Rightarrow> val_acc \<Rightarrow> error + val_acc" where
  "valid_loop cfg col st i [] v = Inr v"
| "valid_loop cfg col st i (batch # rest) v =
     (case valid_step cfg col st i batch v of
        Inl e \<Rightarrow> Inl e
      | Inr v' \<Rightarrow> valid_loop cfg col st (Suc i) rest v')"

definition validate ::
  "config \<Rightarrow> ('w, 'b) collab \<Rightarrow> 'b list \<Rightarrow> 'w tstate \<Rightarrow> error + 'w tstate" where
  "validate cfg col valid_dataloader st =
     (let st1 = st\<lparr>training_mode := False\<rparr>;
          v0 = \<lparr>valid_loss = 0, valid_img = 0, valid_txt = 0, val_img_acc = 0,
                final_step = None\<rparr>
      in case valid_loop cfg col st1 0 valid_dataloader v0 of
           Inl e \<Rightarrow> Inl e
         | Inr v \<Rightarrow>
             (case final_step v of
                None \<Rightarrow> Inl NameError
              | Some f \<Rightarrow>
                  Inr (st1\<lparr>log := log st1 @
                         [ValLog (valid_loss v / (real f + 1)) (val_img_acc v)]\<rparr>)))"

subsection \<open>Epochs and the result (lines 60-172)\<close>

definition train_epoch ::
  "config \<Rightarrow> ('w, 'b) collab \<Rightarrow> int \<Rightarrow> 'b list \<Rightarrow> 'b list \<Rightarrow> int \<Rightarrow> 'w tstate \<Rightarrow> error + 'w tstate" where
  "train_epoch cfg col t_total train_dataloader valid_dataloader epoch st =
     (let st1 = st\<lparr>train_img_acc := 0, training_mode := True\<rparr>
      in case train_loop cfg col t_total epoch 0 train_dataloader st1 of
           Inl e \<Rightarrow> Inl e
         | Inr st2 \<Rightarrow> validate cfg col valid_dataloader st2)"

text \<open>
  \<^verbatim>\<open>for epoch in range(int(config.num_train_epochs))\<close>: \<open>epoch\<close> is the next index,
  \<open>n\<close> the number of epochs still to run.
\<close>

fun train_epochs ::
  "config \<Rightarrow> ('w, 'b) collab \<Rightarrow> int \<Rightarrow> 'b list \<Rightarrow> 'b list \<Rightarrow> nat \<Rightarrow> nat \<Rightarrow> 'w tstate \<Rightarrow> error + 'w tstate" where
  "train_epochs cfg col t_total train_dataloader valid_dataloader epoch 0 st = Inr st"
| "train_epochs cfg col t_total train_dataloader valid_dataloader epoch (Suc n) st =
     (case train_epoch cfg col t_total train_dataloader valid_dataloader (int epoch) st of
        Inl e \<Rightarrow> Inl e
      | Inr st' \<Rightarrow> train_epochs cfg col t_total train_dataloader valid_dataloader (Suc epoch) n st')"

text \<open>
  The state at line 61, for a model \<open>w0\<close> with raw scale \<open>ls0\<close>. A freshly built
  \<^verbatim>\<open>torch.nn.Module\<close> is in training mode.
\<close>

definition init_state :: "('w, 'b) collab \<Rightarrow> int \<Rightarrow> 'w \<Rightarrow> real \<Rightarrow> 'w tstate" where
  "init_state col t_total w0 ls0 =
     \<lparr>global_step = 0, global_loss = 0, logit_scale = ls0, learner = zero_grad col w0,
      training_mode = True, train_img_acc = 0, optimizer_steps = 0, scheduler_steps = 0,
      scheduler_args = (num_warmup_steps_of t_total, t_total),
      checkpoints = [], log = []\<rparr>"

text \<open>Lines 24-169: everything before the \<^verbatim>\<open>return\<close>.\<close>

definition train_run ::
  "config \<Rightarrow> ('w, 'b) collab \<Rightarrow> 'b list \<Rightarrow> 'b list \<Rightarrow> 'w \<Rightarrow> real \<Rightarrow> error + 'w tstate" where
  "train_run cfg col train_dataloader valid_dataloader w0 ls0 =
     (case t_total_of (length train_dataloader) cfg of
        Inl e \<Rightarrow> Inl e
      | Inr t_total \<Rightarrow>
          train_epochs cfg col t_total train_dataloader valid_dataloader 0
            (nat (num_train_epochs cfg)) (init_state col t_total w0 ls0))"

text \<open>
  Line 172: \<^verbatim>\<open>return global_step, global_loss / global_step\<close>. \<^verbatim>\<open>global_loss\<close> is a
  float and \<^verbatim>\<open>global_step\<close> an integer; Python raises on a zero divisor.
\<close>

definition train ::
  "config \<Rightarrow> ('w, 'b) collab \<Rightarrow> 'b list \<Rightarrow> 'b list \<Rightarrow> 'w \<Rightarrow> real \<Rightarrow> error + (int \<times> real)" where
  "train cfg col train_dataloader valid_dataloader w0 ls0 =
     (case train_run cfg col train_dataloader valid_dataloader w0 ls0 of
        Inl e \<Rightarrow> Inl e
      | Inr st \<Rightarrow>
          if global_step st = 0 then Inl ZeroDivisionError
          else Inr (global_step st, global_loss st / real_of_int (global_step st)))"

section \<open>A small run\<close>

text \<open>
  A configuration and collaborators on which the theorems below are instantiated: one
  device, an optimizer step every second batch, two epochs, a log line at every
  optimizer step and no periodic checkpoint; a model whose losses are 0, an optimizer
  that adds 5 to the raw \<^verbatim>\<open>logit_scale\<close>, and a file system on which every
  \<^verbatim>\<open>torch.save\<close> goes through.
\<close>

definition example_config :: config where
  "example_config =
     \<lparr>n_gpu = 1, gradient_accumulation_steps = 2, num_train_epochs = 2,
      logging_steps = 1, save_steps = 0\<rparr>"

definition example_collab :: "(unit, unit) collab" where
  "example_collab =
     \<lparr>engine = (\<lambda>mode w s b. \<lparr>acc_inc = 0, image_loss = 0, text_loss = 0\<rparr>),
      backward = (\<lambda>w ls b k. w),
      optimizer_step = (\<lambda>w ls. (w, ls + 5)),
      scheduler_step = (\<lambda>w. w),
      zero_grad = (\<lambda>w. w),
      torch_save = (\<lambda>c k. True)\<rparr>"

section \<open>The checkpoint manager retries at most ten times\<close>

lemma save_loop_from:
  "j \<le> 10 \<Longrightarrow>
   save_loop ok epoch gs \<lparr>save_num = j, attempts = j, msgs = m\<rparr> =
     (case filter ok [j..<10] of
        [] \<Rightarrow> \<lparr>save_num = 10, attempts = 10, msgs = m\<rparr>
      | k # _ \<Rightarrow> \<lparr>save_num = k, attempts = k + 1, msgs = m @ [SaveCheckpointTo epoch gs]\<rparr>)"
proof (induction "10 - j" arbitrary: j)
  case 0
  then have "j = 10" by simp
  then show ?case by (simp add: save_loop.simps)
next
  case (Suc d)
  then have lt: "j < 10" by simp
  have up: "[j..<10] = j # [Suc j..<10]" using lt by (simp add: upt_conv_Cons)
  show ?case
  proof (cases "ok j")
    case True
    then show ?thesis using lt by (subst save_loop.simps) (simp add: up)
  next
    case False
    have "d = 10 - Suc j" using Suc.hyps(2) by simp
    moreover have "Suc j \<le> 10" using lt by simp
    ultimately have IH:
      "save_loop ok epoch gs \<lparr>save_num = Suc j, attempts = Suc j, msgs = m\<rparr> =
        (case filter ok [Suc j..<10] of
           [] \<Rightarrow> \<lparr>save_num = 10, attempts = 10, msgs = m\<rparr>
         | k # _ \<Rightarrow> \<lparr>save_num = k, attempts = k + 1, msgs = m @ [SaveCheckpointTo epoch gs]\<rparr>)"
      using Suc.hyps(1) by blast
    show ?thesis using lt False IH by (subst save_loop.simps) (simp add: up)
  qed
qed

lemma first_ok_SomeI:
  assumes "k < n" "ok k" "\<forall>i<k. \<not> ok i"
  shows "first_ok ok n = Some k"
proof -
  have "[0..<n] = [0..<k] @ k # [Suc k..<n]"
    using assms(1) by (metis less_imp_le_nat upt_add_eq_append upt_conv_Cons le0 le_add_diff_inverse)
  moreover have "filter ok [0..<k] = []" using assms(3) by (simp add: filter_empty_conv)
  ultimately show ?thesis using assms(2) by (simp add: first_ok_def)
qed

lemma first_ok_NoneI: "\<forall>i<n. \<not> ok i \<Longrightarrow> first_ok ok n = None"
  by (simp add: first_ok_def filter_empty_conv)

lemma first_ok_lt: "first_ok ok n = Some k \<Longrightarrow> k < n"
proof -
  assume "first_ok ok n = Some k"
  then obtain ks where "filter ok [0..<n] = k # ks"
    by (auto simp: first_ok_def split: list.splits)
  then have "k \<in> set (filter ok [0..<n])"
    by (metis list.set_intros(1))
  then show ?thesis by simp
qed

lemma save_checkpoint_first_ok:
  "save_checkpoint ok epoch gs =
     (case first_ok ok 10 of
        Some k \<Rightarrow> \<lparr>save_num = k, attempts = k + 1, msgs = [SaveCheckpointTo epoch gs]\<rparr>
      | None \<Rightarrow> \<lparr>save_num = 10, attempts = 10, msgs = [FailedToSave]\<rparr>)"
proof -
  have "save_loop ok epoch gs \<lparr>save_num = 0, attempts = 0, msgs = []\<rparr> =
     (case filter ok [0..<10] of
        [] \<Rightarrow> \<lparr>save_num = 10, attempts = 10, msgs = []\<rparr>
      | k # _ \<Rightarrow> \<lparr>save_num = k, attempts = k + 1, msgs = [] @ [SaveCheckpointTo epoch gs]\<rparr>)"
    by (rule save_loop_from) simp
  moreover have "\<And>k ks. filter ok [0..<10] = k # ks \<Longrightarrow> k \<noteq> 10"
  proof -
    fix k ks assume "filter ok [0..<10] = k # ks"
    then have "k \<in> set (filter ok [0..<10])" by simp
    then show "k \<noteq> 10" by auto
  qed
  ultimately show ?thesis
    by (auto simp: save_checkpoint_def first_ok_def Let_def split: list.splits)
qed

lemma save_checkpoint_attempts_le: "attempts (save_checkpoint ok epoch gs) \<le> 10"
proof (cases "first_ok ok 10")
  case None
  then show ?thesis by (simp add: save_checkpoint_first_ok)
next
  case (Some k)
  then have "k < 10" by (rule first_ok_lt)
  then show ?thesis using Some by (simp add: save_checkpoint_first_ok)
qed

text \<open>
  Claim C2. A call of \<^verbatim>\<open>save_checkpoint\<close> passes through the \<^verbatim>\<open>try\<close> block at most ten
  times. When pass \<open>k\<close> (counted from 0, \<open>k < 10\<close>) is the first that goes through, the
  \<open>k\<close> passes before it each added one to \<^verbatim>\<open>save_num\<close> and logged nothing, the loop
  ends there after \<open>k + 1\<close> passes and the only message is the one of the success. When
  none of the ten passes goes through, \<^verbatim>\<open>save_num\<close> is 10 and the only message is the
  one of the failure. The function is total: it returns on both paths and raises on
  neither. In particular nine failures followed by a success make ten passes and log the
  success.
\<close>

theorem save_checkpoint_bounded_retry:
  "attempts (save_checkpoint ok epoch gs) \<le> 10 \<and>
   (k < 10 \<and> ok k \<and> (\<forall>i<k. \<not> ok i) \<longrightarrow>
      save_checkpoint ok epoch gs =
        \<lparr>save_num = k, attempts = k + 1, msgs = [SaveCheckpointTo epoch gs]\<rparr>) \<and>
   ((\<forall>i<10. \<not> ok i) \<longrightarrow>
      save_checkpoint ok epoch gs =
        \<lparr>save_num = 10, attempts = 10, msgs = [FailedToSave]\<rparr>) \<and>
   ((\<forall>i<9. \<not> ok i) \<and> ok 9 \<longrightarrow>
      attempts (save_checkpoint ok epoch gs) = 10 \<and>
      msgs (save_checkpoint ok epoch gs) = [SaveCheckpointTo epoch gs])"
proof (intro conjI impI)
  show "attempts (save_checkpoint ok epoch gs) \<le> 10"
    by (rule save_checkpoint_attempts_le)
next
  assume "k < 10 \<and> ok k \<and> (\<forall>i<k. \<not> ok i)"
  then have "first_ok ok 10 = Some k" by (simp add: first_ok_SomeI)
  then show "save_checkpoint ok epoch gs =
      \<lparr>save_num = k, attempts = k + 1, msgs = [SaveCheckpointTo epoch gs]\<rparr>"
    by (simp add: save_checkpoint_first_ok)
next
  assume "\<forall>i<10. \<not> ok i"
  then have "first_ok ok 10 = None" by (rule first_ok_NoneI)
  then show "save_checkpoint ok epoch gs =
      \<lparr>save_num = 10, attempts = 10, msgs = [FailedToSave]\<rparr>"
    by (simp add: save_checkpoint_first_ok)
next
  assume "(\<forall>i<9. \<not> ok i) \<and> ok 9"
  then have nine: "first_ok ok 10 = Some 9" by (simp add: first_ok_SomeI)
  show "attempts (save_checkpoint ok epoch gs) = 10"
    using nine by (simp add: save_checkpoint_first_ok)
  show "msgs (save_checkpoint ok epoch gs) = [SaveCheckpointTo epoch gs]"
    using nine by (simp add: save_checkpoint_first_ok)
qed

theorem save_checkpoint_bounded_retry_witness:
  "attempts (save_checkpoint (\<lambda>i. 9 \<le> i) 2 7) = 10 \<and>
   save_checkpoint (\<lambda>i. 9 \<le> i) 2 7 =
     \<lparr>save_num = 9, attempts = 10, msgs = [SaveCheckpointTo 2 7]\<rparr> \<and>
   save_checkpoint (\<lambda>i. False) 2 7 =
     \<lparr>save_num = 10, attempts = 10, msgs = [FailedToSave]\<rparr>"
  using save_checkpoint_bounded_retry [of "\<lambda>i. 9 \<le> i" 2 7 9]
    save_checkpoint_bounded_retry [of "\<lambda>i. False" 2 7 0]
  by simp

section \<open>Arithmetic facts\<close>

lemma exp_partial_sum_le:
  fixes x :: real
  assumes "0 \<le> x"
  shows "(\<Sum>k<n. x ^ k / fact k) \<le> exp x"
proof -
  have s: "(\<lambda>k. x ^ k / fact k) sums exp x"
    using exp_converges [of x] by (simp add: divide_inverse mult.commute scaleR_conv_of_real)
  have "sum (\<lambda>k. x ^ k / fact k) {..<n} \<le> suminf (\<lambda>k. x ^ k / fact k)"
    by (rule sum_le_suminf) (use s assms in \<open>auto simp: sums_iff\<close>)
  then show ?thesis using s by (simp add: sums_iff)
qed

lemma ten_less_exp: "(10::real) < exp (23026 / 10000)"
proof -
  have "(10::real) < (\<Sum>k<14. (23026 / 10000) ^ k / fact k)"
    by (simp add: lessThan_nat_numeral lessThan_Suc fact_numeral power_divide)
  also have "\<dots> \<le> exp (23026 / 10000)"
    by (rule exp_partial_sum_le) simp
  finally show ?thesis .
qed

lemma ln_100_less: "ln (100::real) < 4.6052"
proof -
  have e: "(4.6052::real) = 2 * (23026 / 10000)" by simp
  have "(100::real) = 10 ^ 2" by simp
  also have "\<dots> < exp (23026 / 10000) ^ 2"
    using ten_less_exp by (intro power_strict_mono) auto
  also have "\<dots> = exp 4.6052" by (subst e) (rule exp_double [symmetric])
  finally have "exp (ln (100::real)) < exp 4.6052" by simp
  then show ?thesis by (simp only: exp_less_cancel_iff)
qed

text \<open>The rounding to the nearest double, and the product with 0.20 at three places.\<close>

lemma floor_log2_eq:
  assumes "0 < x" "2 powr of_int e \<le> x" "x < 2 powr (of_int e + 1)"
  shows "\<lfloor>Transcendental.log 2 x\<rfloor> = e"
proof (rule floor_unique)
  show "of_int e \<le> Transcendental.log 2 x" using assms(1,2) by (simp add: le_log_iff)
  show "Transcendental.log 2 x < of_int e + 1" using assms(1,3) by (simp add: log_less_iff)
qed

lemma round_double_at:
  assumes "x \<noteq> 0" "2 powr of_int e \<le> \<bar>x\<bar>" "\<bar>x\<bar> < 2 powr (of_int e + 1)"
  shows "round_double x = 2 powr (of_int e - 52) * of_int (half_even (x / 2 powr (of_int e - 52)))"
proof -
  have "\<lfloor>Transcendental.log 2 \<bar>x\<bar>\<rfloor> = e" using assms by (intro floor_log2_eq) auto
  then show ?thesis using assms(1) by (simp add: round_double_def Let_def)
qed

lemma half_even_of_int [simp]: "half_even (of_int k) = k"
  by (simp add: half_even_def)

lemma half_even_nonneg: "0 \<le> x \<Longrightarrow> 0 \<le> half_even x"
  by (auto simp: half_even_def Let_def)

lemma half_even_nonpos: "x \<le> 0 \<Longrightarrow> half_even x \<le> 0"
proof -
  assume x: "x \<le> 0"
  show ?thesis
  proof (cases "x = of_int \<lfloor>x\<rfloor>")
    case True
    then have "x - of_int \<lfloor>x\<rfloor> = 0" by simp
    then have "half_even x = \<lfloor>x\<rfloor>" by (simp add: half_even_def Let_def)
    then show ?thesis using x by (simp add: floor_le_zero)
  next
    case False
    then have "of_int \<lfloor>x\<rfloor> < x" using of_int_floor_le [of x] by linarith
    then have "of_int \<lfloor>x\<rfloor> < (0::real)" using x by linarith
    then have "\<lfloor>x\<rfloor> < 0" by simp
    then have "\<lfloor>x\<rfloor> + 1 \<le> 0" by linarith
    moreover have "half_even x \<le> \<lfloor>x\<rfloor> + 1" by (simp add: half_even_def Let_def)
    ultimately show ?thesis by linarith
  qed
qed

lemma round_double_nonneg: "0 \<le> x \<Longrightarrow> 0 \<le> round_double x"
  by (auto simp: round_double_def Let_def intro!: mult_nonneg_nonneg half_even_nonneg
      divide_nonneg_nonneg)

lemma round_double_nonpos: "x \<le> 0 \<Longrightarrow> round_double x \<le> 0"
proof -
  assume x: "x \<le> 0"
  have "x / u \<le> 0" if "0 < u" for u :: real using x that by (simp add: divide_nonpos_pos)
  then have "of_int (half_even (x / u)) \<le> (0::real)" if "0 < u" for u :: real
    using that half_even_nonpos [of "x / u"] by simp
  then show ?thesis
    by (auto simp: round_double_def Let_def intro!: mult_nonneg_nonpos)
qed

lemma half_even_numeral [simp]:
  "half_even (numeral n) = numeral n" "half_even (- numeral n) = - numeral n"
  using half_even_of_int [of "numeral n"] half_even_of_int [of "- numeral n"] by simp_all

lemma half_even_tie_odd:
  assumes "odd k"
  shows "half_even (of_int k + 1 / 2) = k + 1"
proof -
  have "\<lfloor>of_int k + 1 / 2 :: real\<rfloor> = k" by (rule floor_unique) auto
  then show ?thesis using assms by (simp add: half_even_def Let_def)
qed

lemma round_double_minus_one: "round_double (- 1) = - 1"
proof -
  have "round_double (- 1) =
      2 powr (of_int 0 - 52) * of_int (half_even (- 1 / 2 powr (of_int 0 - 52)))"
    by (rule round_double_at) simp_all
  then show ?thesis by (simp add: powr_neg_numeral)
qed

lemma float_0_20_times_minus_one: "float_0_20_times (- 1) = - double_0_20"
proof -
  have "round_double (- double_0_20) =
      2 powr (of_int (- 3) - 52) * of_int (half_even (- double_0_20 / 2 powr (of_int (- 3) - 52)))"
    by (rule round_double_at) (simp_all add: double_0_20_def powr_neg_numeral)
  then have "round_double (- double_0_20) = - double_0_20"
    by (simp add: double_0_20_def powr_neg_numeral)
  then show ?thesis by (simp add: float_0_20_times_def round_double_minus_one)
qed

lemma num_warmup_steps_minus_one: "num_warmup_steps_of (- 1) = 0"
proof -
  have "\<lceil>- double_0_20\<rceil> = 0" by (rule ceiling_unique) (simp_all add: double_0_20_def)
  then show ?thesis
    by (simp add: num_warmup_steps_of_def py_int_def float_0_20_times_minus_one double_0_20_def)
qed

lemma round_double_big: "round_double 6755399441055744 = 6755399441055744"
proof -
  have "round_double 6755399441055744 =
      2 powr (of_int 52 - 52) * of_int (half_even (6755399441055744 / 2 powr (of_int 52 - 52)))"
    by (rule round_double_at) simp_all
  then show ?thesis by simp
qed

lemma float_0_20_times_big: "float_0_20_times 6755399441055744 = 1351079888211149"
proof -
  let ?x = "double_0_20 * 6755399441055744"
  have x: "?x = 10808639105689191 / 8" by (simp add: double_0_20_def)
  have "round_double ?x =
      2 powr (of_int 50 - 52) * of_int (half_even (?x / 2 powr (of_int 50 - 52)))"
    by (rule round_double_at) (simp_all add: x)
  also have "?x / 2 powr (of_int 50 - 52) = of_int 5404319552844595 + 1 / 2"
    by (simp add: x powr_neg_numeral)
  also have "half_even (of_int 5404319552844595 + 1 / 2) = 5404319552844595 + 1"
    by (rule half_even_tie_odd) simp
  finally have "round_double ?x = 1351079888211149" by (simp add: powr_neg_numeral)
  then show ?thesis by (simp add: float_0_20_times_def round_double_big)
qed

lemma num_warmup_steps_big: "num_warmup_steps_of 6755399441055744 = 1351079888211149"
  by (simp add: num_warmup_steps_of_def py_int_def float_0_20_times_big)

lemma exact_floor_big: "\<lfloor>0.20 * real_of_int 6755399441055744\<rfloor> = 1351079888211148"
  by (rule floor_unique) simp_all

lemma exact_floor_minus_one: "\<lfloor>0.20 * real_of_int (- 1)\<rfloor> = - 1"
  by (rule floor_unique) simp_all

lemma round_double_twelve: "round_double 12 = 12"
proof -
  have "round_double 12 =
      2 powr (of_int 3 - 52) * of_int (half_even (12 / 2 powr (of_int 3 - 52)))"
    by (rule round_double_at) simp_all
  then show ?thesis by (simp add: powr_neg_numeral)
qed

lemma float_0_20_times_twelve: "float_0_20_times 12 = 5404319552844596 / 2251799813685248"
proof -
  let ?x = "double_0_20 * 12"
  have x: "?x = 10808639105689191 / 4503599627370496" by (simp add: double_0_20_def)
  have "round_double ?x =
      2 powr (of_int 1 - 52) * of_int (half_even (?x / 2 powr (of_int 1 - 52)))"
    by (rule round_double_at) (simp_all add: x)
  also have "?x / 2 powr (of_int 1 - 52) = of_int 5404319552844595 + 1 / 2"
    by (simp add: x powr_neg_numeral)
  also have "half_even (of_int 5404319552844595 + 1 / 2) = 5404319552844595 + 1"
    by (rule half_even_tie_odd) simp
  finally have "round_double ?x = 5404319552844596 / 2251799813685248"
    by (simp add: powr_neg_numeral)
  then show ?thesis by (simp add: float_0_20_times_def round_double_twelve)
qed

lemma num_warmup_steps_twelve: "num_warmup_steps_of 12 = 2"
proof -
  have "\<lfloor>5404319552844596 / 2251799813685248 :: real\<rfloor> = 2" by (rule floor_unique) simp_all
  then show ?thesis
    by (simp add: num_warmup_steps_of_def py_int_def float_0_20_times_twelve)
qed

section \<open>Effects of one step and of the loop over the batches\<close>

lemma boundary_cases:
  "boundary cfg col t_total epoch st =
     (if logging_steps cfg = 0 then Inl ZeroDivisionError
      else Inr (let gs = global_step st + 1;
          st1 = st\<lparr>global_step := gs,
                   logit_scale := (if 1 \<le> n_gpu cfg
                      then clamp (snd (optimizer_step col (learner st) (logit_scale st))) 0 4.6052
                      else snd (optimizer_step col (learner st) (logit_scale st))),
                   learner := zero_grad col (scheduler_step col
                      (fst (optimizer_step col (learner st) (logit_scale st)))),
                   optimizer_steps := optimizer_steps st + 1,
                   scheduler_steps := scheduler_steps st + 1\<rparr>;
          st2 = (if gs mod logging_steps cfg = 0
                      then st1\<lparr>log := log st1 @ [TrainLog epoch gs]\<rparr> else st1)
          in if (save_steps cfg > 0 \<and> gs mod save_steps cfg = 0) \<or> gs = t_total
              then do_save col epoch gs st2 else st2))"
  by (auto simp: boundary_def Let_def split: prod.splits)

lemma boundary_fields:
  assumes "boundary cfg col t_total epoch st = Inr st'"
  shows "global_step st' = global_step st + 1"
    and "optimizer_steps st' = optimizer_steps st + 1"
    and "scheduler_steps st' = scheduler_steps st + 1"
    and "global_loss st' = global_loss st"
    and "scheduler_args st' = scheduler_args st"
    and "training_mode st' = training_mode st"
    and "logging_steps cfg \<noteq> 0"
  using assms by (auto simp: boundary_cases Let_def do_save_def split: if_splits)

lemma div_succ_boundary:
  fixes a k :: int
  assumes "0 < a" "(k + 1) mod a = 0"
  shows "(k + 1) div a = k div a + 1"
proof -
  have "k + 1 = a * ((k + 1) div a)"
    using assms(2) by (metis add.right_neutral mult_div_mod_eq)
  then have "k = a * ((k + 1) div a - 1) + (a - 1)"
    by (simp add: algebra_simps)
  then have "k div a = (k + 1) div a - 1"
    using assms(1) by (intro int_div_pos_eq [where r = "a - 1"]) auto
  then show ?thesis by simp
qed

lemma div_succ_inside:
  fixes a k :: int
  assumes "0 < a" "(k + 1) mod a \<noteq> 0"
  shows "(k + 1) div a = k div a"
proof -
  let ?r = "(k + 1) mod a"
  have r0: "0 \<le> ?r" using assms(1) by (rule pos_mod_sign)
  have r1: "?r < a" using assms(1) by (rule pos_mod_bound)
  have r: "0 < ?r" "?r < a" using r0 r1 assms(2) by linarith+
  have "k + 1 = a * ((k + 1) div a) + ?r" by simp
  then have "k = a * ((k + 1) div a) + (?r - 1)" by linarith
  then have "k div a = (k + 1) div a"
    using r by (intro int_div_pos_eq [where r = "?r - 1"]) auto
  then show ?thesis by simp
qed


lemma train_step_cases:
  "train_step cfg col t_total epoch step batch st =
     (if 1 \<le> n_gpu cfg then
        if gradient_accumulation_steps cfg = 0 then Inl ZeroDivisionError
        else if (int step + 1) mod gradient_accumulation_steps cfg = 0
        then boundary cfg col t_total epoch (forward_backward cfg col batch st)
        else Inr (forward_backward cfg col batch st)
      else Inl NameError)"
  by (auto simp: train_step_def Let_def)

lemma forward_backward_fields [simp]:
  "global_step (forward_backward cfg col batch st) = global_step st"
  "optimizer_steps (forward_backward cfg col batch st) = optimizer_steps st"
  "scheduler_steps (forward_backward cfg col batch st) = scheduler_steps st"
  "scheduler_args (forward_backward cfg col batch st) = scheduler_args st"
  "logit_scale (forward_backward cfg col batch st) = logit_scale st"
  "checkpoints (forward_backward cfg col batch st) = checkpoints st"
  "training_mode (forward_backward cfg col batch st) = training_mode st"
  "log (forward_backward cfg col batch st) = log st"
  by (simp_all add: forward_backward_def Let_def)

lemma train_step_fields:
  assumes "train_step cfg col t_total epoch step batch st = Inr st'"
  shows "1 \<le> n_gpu cfg"
    and "gradient_accumulation_steps cfg \<noteq> 0"
    and "global_step st' = global_step st +
           (if (int step + 1) mod gradient_accumulation_steps cfg = 0 then 1 else 0)"
    and "optimizer_steps st' = optimizer_steps st +
           (if (int step + 1) mod gradient_accumulation_steps cfg = 0 then 1 else 0)"
    and "scheduler_steps st' = scheduler_steps st +
           (if (int step + 1) mod gradient_accumulation_steps cfg = 0 then 1 else 0)"
    and "scheduler_args st' = scheduler_args st"
    and "training_mode st' = training_mode st"
  using assms
  by (auto simp: train_step_cases split: if_splits dest: boundary_fields)

lemma train_loop_counts:
  assumes "0 < gradient_accumulation_steps cfg"
    and "train_loop cfg col t_total epoch k bs st = Inr st'"
  shows "global_step st' = global_step st +
           (int (k + length bs) div gradient_accumulation_steps cfg
              - int k div gradient_accumulation_steps cfg)
       \<and> int (optimizer_steps st') = int (optimizer_steps st) +
           (int (k + length bs) div gradient_accumulation_steps cfg
              - int k div gradient_accumulation_steps cfg)
       \<and> int (scheduler_steps st') = int (scheduler_steps st) +
           (int (k + length bs) div gradient_accumulation_steps cfg
              - int k div gradient_accumulation_steps cfg)
       \<and> scheduler_args st' = scheduler_args st
       \<and> training_mode st' = training_mode st"
  using assms(2)
proof (induction bs arbitrary: k st)
  case Nil
  then show ?case by simp
next
  case (Cons b bs)
  then obtain st1 where s1: "train_step cfg col t_total epoch k b st = Inr st1"
    and rest: "train_loop cfg col t_total epoch (Suc k) bs st1 = Inr st'"
    by (auto split: sum.splits)
  note f = train_step_fields [OF s1]
  note ih = Cons.IH [OF rest]
  let ?a = "gradient_accumulation_steps cfg"
  have step: "(int k + 1) div ?a = int k div ?a + (if (int k + 1) mod ?a = 0 then 1 else 0)"
    using assms(1) div_succ_boundary [of ?a "int k"] div_succ_inside [of ?a "int k"] by auto
  have idx: "int (Suc k) = int k + 1" "int (Suc k + length bs) = int (k + length (b # bs))"
    by simp_all
  show ?case
    using ih f(3-7) step unfolding idx
    by (auto split: if_splits)
qed


lemma boundary_checkpoints:
  assumes "boundary cfg col t_total epoch st = Inr st'"
  shows "checkpoints st' =
     (if (save_steps cfg > 0 \<and> (global_step st + 1) mod save_steps cfg = 0)
         \<or> global_step st + 1 = t_total
      then checkpoints st @
        [(epoch, global_step st + 1,
          save_checkpoint (torch_save col (length (checkpoints st))) epoch (global_step st + 1))]
      else checkpoints st)"
  using assms by (auto simp: boundary_cases Let_def do_save_def split: if_splits)

lemma train_loop_total:
  assumes "1 \<le> n_gpu cfg" "gradient_accumulation_steps cfg \<noteq> 0" "logging_steps cfg \<noteq> 0"
  shows "\<exists>st'. train_loop cfg col t_total epoch k bs st = Inr st'"
proof (induction bs arbitrary: k st)
  case Nil
  then show ?case by simp
next
  case (Cons b bs)
  have "\<exists>st1. train_step cfg col t_total epoch k b st = Inr st1"
    using assms by (simp add: train_step_cases boundary_cases)
  then show ?case using Cons.IH by (auto split: sum.splits)
qed

lemma train_loop_short_total:
  assumes "1 \<le> n_gpu cfg" "int (k + length bs) < gradient_accumulation_steps cfg"
  shows "\<exists>st'. train_loop cfg col t_total epoch k bs st = Inr st'"
  using assms(2)
proof (induction bs arbitrary: k st)
  case Nil
  then show ?case by simp
next
  case (Cons b bs)
  let ?a = "gradient_accumulation_steps cfg"
  have "0 \<le> int k + 1" "int k + 1 < ?a" using Cons.prems by simp_all
  then have "(int k + 1) mod ?a = int k + 1" by simp
  then have "(int k + 1) mod ?a \<noteq> 0" by simp
  moreover have "?a \<noteq> 0" using Cons.prems by auto
  ultimately have "\<exists>st1. train_step cfg col t_total epoch k b st = Inr st1"
    using assms(1) by (simp add: train_step_cases)
  moreover have "int (Suc k + length bs) < ?a" using Cons.prems by simp
  ultimately show ?case using Cons.IH by (auto split: sum.splits)
qed

lemma train_loop_needs_gpu:
  assumes "train_loop cfg col t_total epoch k bs st = Inr st'" "bs \<noteq> []"
  shows "1 \<le> n_gpu cfg"
  using assms by (cases bs) (auto split: sum.splits dest: train_step_fields(1))

lemma train_loop_checkpoints:
  assumes "save_steps cfg \<le> 0"
    and "train_loop cfg col t_total epoch k bs st = Inr st'"
  shows "global_step st \<le> global_step st' \<and>
     checkpoints st' =
       (if global_step st < t_total \<and> t_total \<le> global_step st'
        then checkpoints st @
          [(epoch, t_total, save_checkpoint (torch_save col (length (checkpoints st))) epoch t_total)]
        else checkpoints st)"
  using assms(2)
proof (induction bs arbitrary: k st)
  case Nil
  then show ?case by simp
next
  case (Cons b bs)
  then obtain st1 where s1: "train_step cfg col t_total epoch k b st = Inr st1"
    and rest: "train_loop cfg col t_total epoch (Suc k) bs st1 = Inr st'"
    by (auto split: sum.splits)
  note ih = Cons.IH [OF rest]
  have one: "global_step st \<le> global_step st1 \<and> global_step st1 \<le> global_step st + 1 \<and>
     checkpoints st1 =
       (if global_step st < t_total \<and> t_total \<le> global_step st1
        then checkpoints st @
          [(epoch, t_total, save_checkpoint (torch_save col (length (checkpoints st))) epoch t_total)]
        else checkpoints st)"
  proof (cases "(int k + 1) mod gradient_accumulation_steps cfg = 0")
    case True
    then have b: "boundary cfg col t_total epoch (forward_backward cfg col b st) = Inr st1"
      using s1 by (auto simp: train_step_cases split: if_splits)
    show ?thesis
      using boundary_checkpoints [OF b] boundary_fields(1) [OF b] assms(1) by auto
  next
    case False
    then have "st1 = forward_backward cfg col b st"
      using s1 by (auto simp: train_step_cases split: if_splits)
    then show ?thesis by simp
  qed
  show ?case
    using ih one by (auto split: if_splits)
qed

section \<open>Effects of the validation pass and of the epochs\<close>

lemma valid_loop_needs_gpu:
  assumes "valid_loop cfg col st i bs v = Inr v'" "bs \<noteq> []"
  shows "1 \<le> n_gpu cfg"
  using assms by (cases bs) (auto simp: valid_step_def split: sum.splits if_splits)

lemma valid_loop_total:
  assumes "1 \<le> n_gpu cfg"
  shows "\<exists>v'. valid_loop cfg col st i bs v = Inr v' \<and>
           final_step v' = (if bs = [] then final_step v else Some (i + length bs - 1))"
proof (induction bs arbitrary: i v)
  case Nil
  then show ?case by simp
next
  case (Cons b bs)
  have cond: "n_gpu cfg = 1 \<or> n_gpu cfg > 1" using assms by linarith
  have "\<exists>v1. valid_step cfg col st i b v = Inr v1 \<and> final_step v1 = Some i"
    by (simp add: valid_step_def Let_def cond)
  then obtain v1 where v1: "valid_step cfg col st i b v = Inr v1" "final_step v1 = Some i"
    by blast
  obtain v' where "valid_loop cfg col st (Suc i) bs v1 = Inr v'"
    "final_step v' = (if bs = [] then final_step v1 else Some (Suc i + length bs - 1))"
    using Cons.IH by blast
  then show ?case using v1 by (cases bs) auto
qed

lemma validate_empty: "validate cfg col [] st = Inl NameError"
  by (simp add: validate_def)

lemma validate_total:
  assumes "1 \<le> n_gpu cfg" "bs \<noteq> []"
  shows "\<exists>st'. validate cfg col bs st = Inr st'"
proof -
  let ?st1 = "st\<lparr>training_mode := False\<rparr>"
  let ?v0 = "\<lparr>valid_loss = 0, valid_img = 0, valid_txt = 0, val_img_acc = 0,
                final_step = None\<rparr>"
  obtain v' where "valid_loop cfg col ?st1 0 bs ?v0 = Inr v'"
    "final_step v' = Some (0 + length bs - 1)"
    using valid_loop_total [OF assms(1), of col ?st1 0 bs ?v0] assms(2) by auto
  then show ?thesis by (simp add: validate_def)
qed

lemma validate_frame:
  assumes "validate cfg col bs st = Inr st'"
  shows "\<exists>m. st' = st\<lparr>training_mode := False, log := log st @ [m]\<rparr>"
  using assms by (auto simp: validate_def Let_def split: sum.splits option.splits)

lemma validate_nonempty:
  assumes "validate cfg col bs st = Inr st'"
  shows "bs \<noteq> []" "1 \<le> n_gpu cfg"
proof -
  show ne: "bs \<noteq> []" using assms by (auto simp: validate_empty)
  obtain v where "valid_loop cfg col (st\<lparr>training_mode := False\<rparr>) 0 bs
     \<lparr>valid_loss = 0, valid_img = 0, valid_txt = 0, val_img_acc = 0, final_step = None\<rparr> = Inr v"
    using assms by (auto simp: validate_def Let_def split: sum.splits)
  then show "1 \<le> n_gpu cfg" using ne by (rule valid_loop_needs_gpu)
qed


lemma train_epoch_fields:
  assumes "0 < gradient_accumulation_steps cfg"
    and "train_epoch cfg col t_total tr va epoch st = Inr st'"
  shows "global_step st' =
           global_step st + int (length tr) div gradient_accumulation_steps cfg"
    and "int (optimizer_steps st') =
           int (optimizer_steps st) + int (length tr) div gradient_accumulation_steps cfg"
    and "int (scheduler_steps st') =
           int (scheduler_steps st) + int (length tr) div gradient_accumulation_steps cfg"
    and "scheduler_args st' = scheduler_args st"
    and "va \<noteq> []" and "1 \<le> n_gpu cfg"
proof -
  let ?st1 = "st\<lparr>train_img_acc := 0, training_mode := True\<rparr>"
  obtain st2 where l: "train_loop cfg col t_total epoch 0 tr ?st1 = Inr st2"
    and v: "validate cfg col va st2 = Inr st'"
    using assms(2) by (auto simp: train_epoch_def Let_def split: sum.splits)
  note c = train_loop_counts [OF assms(1) l]
  obtain m where m: "st' = st2\<lparr>training_mode := False, log := log st2 @ [m]\<rparr>"
    using validate_frame [OF v] by blast
  show "global_step st' =
           global_step st + int (length tr) div gradient_accumulation_steps cfg"
    using c m by simp
  show "int (optimizer_steps st') =
           int (optimizer_steps st) + int (length tr) div gradient_accumulation_steps cfg"
    using c m by simp
  show "int (scheduler_steps st') =
           int (scheduler_steps st) + int (length tr) div gradient_accumulation_steps cfg"
    using c m by simp
  show "scheduler_args st' = scheduler_args st"
    using c m by simp
  show "va \<noteq> []" "1 \<le> n_gpu cfg" using validate_nonempty [OF v] by simp_all
qed

lemma train_epoch_checkpoints:
  assumes "save_steps cfg \<le> 0"
    and "train_epoch cfg col t_total tr va epoch st = Inr st'"
  shows "global_step st \<le> global_step st' \<and>
     checkpoints st' =
       (if global_step st < t_total \<and> t_total \<le> global_step st'
        then checkpoints st @
          [(epoch, t_total, save_checkpoint (torch_save col (length (checkpoints st))) epoch t_total)]
        else checkpoints st)"
proof -
  let ?st1 = "st\<lparr>train_img_acc := 0, training_mode := True\<rparr>"
  obtain st2 where l: "train_loop cfg col t_total epoch 0 tr ?st1 = Inr st2"
    and v: "validate cfg col va st2 = Inr st'"
    using assms(2) by (auto simp: train_epoch_def Let_def split: sum.splits)
  note c = train_loop_checkpoints [OF assms(1) l]
  obtain m where m: "st' = st2\<lparr>training_mode := False, log := log st2 @ [m]\<rparr>"
    using validate_frame [OF v] by blast
  show ?thesis using c m by simp
qed

lemma train_epoch_total:
  assumes "1 \<le> n_gpu cfg" "gradient_accumulation_steps cfg \<noteq> 0" "logging_steps cfg \<noteq> 0"
    "va \<noteq> []"
  shows "\<exists>st'. train_epoch cfg col t_total tr va epoch st = Inr st'"
proof -
  obtain st2 where "train_loop cfg col t_total epoch 0 tr
      (st\<lparr>train_img_acc := 0, training_mode := True\<rparr>) = Inr st2"
    using train_loop_total [OF assms(1-3)] by blast
  moreover obtain st' where "validate cfg col va st2 = Inr st'"
    using validate_total [OF assms(1) assms(4)] by blast
  ultimately show ?thesis by (simp add: train_epoch_def)
qed

lemma train_epoch_short_total:
  assumes "1 \<le> n_gpu cfg" "int (length tr) < gradient_accumulation_steps cfg" "va \<noteq> []"
  shows "\<exists>st'. train_epoch cfg col t_total tr va epoch st = Inr st'"
proof -
  have "int (0 + length tr) < gradient_accumulation_steps cfg" using assms(2) by simp
  then obtain st2 where "train_loop cfg col t_total epoch 0 tr
      (st\<lparr>train_img_acc := 0, training_mode := True\<rparr>) = Inr st2"
    using train_loop_short_total [OF assms(1)] by blast
  moreover obtain st' where "validate cfg col va st2 = Inr st'"
    using validate_total [OF assms(1) assms(3)] by blast
  ultimately show ?thesis by (simp add: train_epoch_def)
qed

lemma train_epochs_fields:
  assumes "0 < gradient_accumulation_steps cfg"
    and "train_epochs cfg col t_total tr va e n st = Inr st'"
  shows "global_step st' =
           global_step st + int n * (int (length tr) div gradient_accumulation_steps cfg)
       \<and> int (optimizer_steps st') =
           int (optimizer_steps st) + int n * (int (length tr) div gradient_accumulation_steps cfg)
       \<and> int (scheduler_steps st') =
           int (scheduler_steps st) + int n * (int (length tr) div gradient_accumulation_steps cfg)
       \<and> scheduler_args st' = scheduler_args st"
  using assms(2)
proof (induction n arbitrary: e st)
  case 0
  then show ?case by simp
next
  case (Suc n)
  then obtain st1 where e1: "train_epoch cfg col t_total tr va (int e) st = Inr st1"
    and rest: "train_epochs cfg col t_total tr va (Suc e) n st1 = Inr st'"
    by (auto split: sum.splits)
  note f = train_epoch_fields [OF assms(1) e1]
  note ih = Suc.IH [OF rest]
  show ?case using ih f(1-4) by (simp add: algebra_simps)
qed

lemma train_epochs_total:
  assumes "1 \<le> n_gpu cfg" "gradient_accumulation_steps cfg \<noteq> 0" "logging_steps cfg \<noteq> 0"
    "va \<noteq> []"
  shows "\<exists>st'. train_epochs cfg col t_total tr va e n st = Inr st'"
proof (induction n arbitrary: e st)
  case 0
  then show ?case by simp
next
  case (Suc n)
  obtain st1 where "train_epoch cfg col t_total tr va (int e) st = Inr st1"
    using train_epoch_total [OF assms] by blast
  then show ?case using Suc.IH by (auto split: sum.splits)
qed

lemma train_epochs_short_total:
  assumes "1 \<le> n_gpu cfg" "int (length tr) < gradient_accumulation_steps cfg" "va \<noteq> []"
  shows "\<exists>st'. train_epochs cfg col t_total tr va e n st = Inr st'"
proof (induction n arbitrary: e st)
  case 0
  then show ?case by simp
next
  case (Suc n)
  obtain st1 where "train_epoch cfg col t_total tr va (int e) st = Inr st1"
    using train_epoch_short_total [OF assms] by blast
  then show ?case using Suc.IH by (auto split: sum.splits)
qed

lemma train_epochs_checkpoints:
  assumes "save_steps cfg \<le> 0" "0 \<le> q"
    and "t_total = q * int (e + n)"
    and "\<And>e st st'. train_epoch cfg col t_total tr va e st = Inr st' \<Longrightarrow>
            global_step st' = global_step st + q"
    and "global_step st = q * int e" "checkpoints st = []"
    and "train_epochs cfg col t_total tr va e n st = Inr st'"
  shows "checkpoints st' =
     (if 1 \<le> q \<and> 1 \<le> n
      then [(int (e + n) - 1, t_total,
             save_checkpoint (torch_save col 0) (int (e + n) - 1) t_total)]
      else [])"
  using assms(3,5,6,7)
proof (induction n arbitrary: e st)
  case 0
  then show ?case by simp
next
  case (Suc n)
  then obtain st1 where e1: "train_epoch cfg col t_total tr va (int e) st = Inr st1"
    and rest: "train_epochs cfg col t_total tr va (Suc e) n st1 = Inr st'"
    by (auto split: sum.splits)
  have gs1: "global_step st1 = q * int (Suc e)"
    using assms(4) [OF e1] Suc.prems(2) by (simp add: algebra_simps)
  note ck = train_epoch_checkpoints [OF assms(1) e1]
  show ?case
  proof (cases n)
    case 0
    then have "st' = st1" using rest by simp
    moreover have "global_step st < t_total \<and> t_total \<le> global_step st1 \<longleftrightarrow> 1 \<le> q"
      using Suc.prems(1,2) gs1 0 assms(2) by (auto simp: algebra_simps)
    ultimately show ?thesis using ck Suc.prems(3) 0 Suc.prems(1) by auto
  next
    case (Suc m)
    have "\<not> (global_step st < t_total \<and> t_total \<le> global_step st1)"
    proof
      assume a: "global_step st < t_total \<and> t_total \<le> global_step st1"
      then have "q * int (e + Suc n) \<le> q * int (Suc e)"
        using gs1 Suc.prems(1) by simp
      then have "q * int n \<le> 0" by (simp add: algebra_simps)
      moreover have "0 < int n" using Suc by simp
      ultimately have "q \<le> 0" by (simp add: mult_le_0_iff)
      then have "q = 0" using assms(2) by simp
      then show False using a Suc.prems(1,2) by simp
    qed
    then have c1: "checkpoints st1 = []" using ck Suc.prems(3) by simp
    have tt: "t_total = q * int (Suc e + n)" using Suc.prems(1) by simp
    have "checkpoints st' =
       (if 1 \<le> q \<and> 1 \<le> n
        then [(int (Suc e + n) - 1, t_total,
               save_checkpoint (torch_save col 0) (int (Suc e + n) - 1) t_total)]
        else [])"
      using tt gs1 c1 rest by (rule Suc.IH)
    then show ?thesis using Suc by simp
  qed
qed

section \<open>Effects of a whole run\<close>

lemma example_config_simps [simp]:
  "n_gpu example_config = 1" "gradient_accumulation_steps example_config = 2"
  "num_train_epochs example_config = 2" "logging_steps example_config = 1"
  "save_steps example_config = 0"
  by (simp_all add: example_config_def)


lemma train_run_fields:
  assumes "0 < gradient_accumulation_steps cfg"
    and "train_run cfg col tr va w0 ls0 = Inr st"
  shows "global_step st =
           int (nat (num_train_epochs cfg)) * (int (length tr) div gradient_accumulation_steps cfg)"
    and "int (optimizer_steps st) =
           int (nat (num_train_epochs cfg)) * (int (length tr) div gradient_accumulation_steps cfg)"
    and "int (scheduler_steps st) =
           int (nat (num_train_epochs cfg)) * (int (length tr) div gradient_accumulation_steps cfg)"
    and "scheduler_args st =
           (num_warmup_steps_of
              (int (length tr) div gradient_accumulation_steps cfg * num_train_epochs cfg),
            int (length tr) div gradient_accumulation_steps cfg * num_train_epochs cfg)"
proof -
  let ?tt = "int (length tr) div gradient_accumulation_steps cfg * num_train_epochs cfg"
  have tt: "t_total_of (length tr) cfg = Inr ?tt"
    using assms(1) by (simp add: t_total_of_def)
  then have r: "train_epochs cfg col ?tt tr va 0 (nat (num_train_epochs cfg))
      (init_state col ?tt w0 ls0) = Inr st"
    using assms(2) by (simp add: train_run_def)
  note f = train_epochs_fields [OF assms(1) r]
  show "global_step st =
           int (nat (num_train_epochs cfg)) * (int (length tr) div gradient_accumulation_steps cfg)"
    using f by (simp add: init_state_def)
  show "int (optimizer_steps st) =
           int (nat (num_train_epochs cfg)) * (int (length tr) div gradient_accumulation_steps cfg)"
    using f by (simp add: init_state_def)
  show "int (scheduler_steps st) =
           int (nat (num_train_epochs cfg)) * (int (length tr) div gradient_accumulation_steps cfg)"
    using f by (simp add: init_state_def)
  show "scheduler_args st = (num_warmup_steps_of ?tt, ?tt)"
    using f by (simp add: init_state_def)
qed

lemma train_run_total:
  assumes "1 \<le> n_gpu cfg" "gradient_accumulation_steps cfg \<noteq> 0" "logging_steps cfg \<noteq> 0"
    "va \<noteq> []"
  shows "\<exists>st. train_run cfg col tr va w0 ls0 = Inr st"
  using train_epochs_total [OF assms] assms(2) by (simp add: train_run_def t_total_of_def)

lemma train_run_short_total:
  assumes "1 \<le> n_gpu cfg" "int (length tr) < gradient_accumulation_steps cfg" "va \<noteq> []"
  shows "\<exists>st. train_run cfg col tr va w0 ls0 = Inr st"
proof -
  have "gradient_accumulation_steps cfg \<noteq> 0" using assms(2) by auto
  then show ?thesis
    using train_epochs_short_total [OF assms] by (simp add: train_run_def t_total_of_def)
qed

lemma train_run_checkpoints:
  assumes "save_steps cfg \<le> 0" "0 < gradient_accumulation_steps cfg"
    and "train_run cfg col tr va w0 ls0 = Inr st"
  shows "checkpoints st =
     (if 1 \<le> int (length tr) div gradient_accumulation_steps cfg \<and> 1 \<le> num_train_epochs cfg
      then [(num_train_epochs cfg - 1,
             int (length tr) div gradient_accumulation_steps cfg * num_train_epochs cfg,
             save_checkpoint (torch_save col 0) (num_train_epochs cfg - 1)
               (int (length tr) div gradient_accumulation_steps cfg * num_train_epochs cfg))]
      else [])"
proof -
  let ?q = "int (length tr) div gradient_accumulation_steps cfg"
  let ?tt = "?q * num_train_epochs cfg"
  have q: "0 \<le> ?q" using assms(2) by (simp add: pos_imp_zdiv_nonneg_iff)
  have tt: "t_total_of (length tr) cfg = Inr ?tt"
    using assms(2) by (simp add: t_total_of_def)
  then have r: "train_epochs cfg col ?tt tr va 0 (nat (num_train_epochs cfg))
      (init_state col ?tt w0 ls0) = Inr st"
    using assms(3) by (simp add: train_run_def)
  show ?thesis
  proof (cases "0 \<le> num_train_epochs cfg")
    case True
    then have e: "?tt = ?q * int (0 + nat (num_train_epochs cfg))" by simp
    have "checkpoints st =
      (if 1 \<le> ?q \<and> 1 \<le> nat (num_train_epochs cfg)
       then [(int (0 + nat (num_train_epochs cfg)) - 1, ?tt,
          save_checkpoint (torch_save col 0) (int (0 + nat (num_train_epochs cfg)) - 1) ?tt)]
       else [])"
    proof (rule train_epochs_checkpoints [OF assms(1) q e _ _ _ r])
      fix e st st'
      assume "train_epoch cfg col ?tt tr va e st = Inr st'"
      then show "global_step st' = global_step st + ?q"
        by (rule train_epoch_fields(1) [OF assms(2)])
    qed (simp_all add: init_state_def)
    then show ?thesis using True by auto
  next
    case False
    then have "nat (num_train_epochs cfg) = 0" by simp
    then have "st = init_state col ?tt w0 ls0" using r by simp
    then show ?thesis using False by (simp add: init_state_def)
  qed
qed

section \<open>Optimizer steps and \<^verbatim>\<open>global_step\<close>\<close>

text \<open>
  Claim C4. With an accumulation factor of at least 1 and \<open>N\<close> batches in the training
  loader, an epoch that runs to its end calls \<^verbatim>\<open>optimizer.step()\<close> exactly
  \<open>N div A\<close> times and raises \<^verbatim>\<open>global_step\<close> by the same number, so that
  \<^verbatim>\<open>global_step\<close> is \<open>N div A\<close> at the end of the first epoch. When \<^verbatim>\<open>train\<close> returns,
  the step count it returns is \<open>N div A * E\<close>, which is \<^verbatim>\<open>t_total\<close>, and is the number
  of calls of \<^verbatim>\<open>optimizer.step()\<close>. \<^verbatim>\<open>train\<close> does return when there is a device, a
  non-zero logging interval, a validation batch, an epoch to run and at least \<open>A\<close>
  batches.
\<close>

theorem optimizer_steps_floor_per_epoch:
  assumes "1 \<le> gradient_accumulation_steps cfg"
  shows
   "(train_epoch cfg col t_total tr va epoch st = Inr st' \<longrightarrow>
       int (optimizer_steps st') =
         int (optimizer_steps st) + int (length tr) div gradient_accumulation_steps cfg \<and>
       global_step st' =
         global_step st + int (length tr) div gradient_accumulation_steps cfg) \<and>
    (train_epoch cfg col t_total tr va 0 (init_state col t_total w0 ls0) = Inr st' \<longrightarrow>
       global_step st' = int (length tr) div gradient_accumulation_steps cfg) \<and>
    (train cfg col tr va w0 ls0 = Inr (gs, avg) \<longrightarrow>
       gs = int (length tr) div gradient_accumulation_steps cfg * num_train_epochs cfg \<and>
       t_total_of (length tr) cfg = Inr gs \<and>
       (\<exists>st. train_run cfg col tr va w0 ls0 = Inr st \<and> global_step st = gs \<and>
          int (optimizer_steps st) = gs)) \<and>
    (1 \<le> n_gpu cfg \<and> logging_steps cfg \<noteq> 0 \<and> va \<noteq> [] \<and> 1 \<le> num_train_epochs cfg \<and>
     gradient_accumulation_steps cfg \<le> int (length tr) \<longrightarrow>
       (\<exists>gs avg. train cfg col tr va w0 ls0 = Inr (gs, avg)))"
proof (intro conjI impI)
  let ?a = "gradient_accumulation_steps cfg"
  let ?q = "int (length tr) div ?a"
  have a: "0 < ?a" using assms by simp
  {
    assume e: "train_epoch cfg col t_total tr va epoch st = Inr st'"
    show "int (optimizer_steps st') = int (optimizer_steps st) + ?q"
      using train_epoch_fields(2) [OF a e] .
    show "global_step st' = global_step st + ?q"
      using train_epoch_fields(1) [OF a e] .
  }
  {
    assume e: "train_epoch cfg col t_total tr va 0 (init_state col t_total w0 ls0) = Inr st'"
    show "global_step st' = ?q"
      using train_epoch_fields(1) [OF a e] by (simp add: init_state_def)
  }
  {
    assume t: "train cfg col tr va w0 ls0 = Inr (gs, avg)"
    then obtain st where r: "train_run cfg col tr va w0 ls0 = Inr st"
      and g: "global_step st = gs" "gs \<noteq> 0"
      by (auto simp: train_def split: sum.splits if_splits)
    note f = train_run_fields [OF a r]
    have "nat (num_train_epochs cfg) \<noteq> 0"
    proof
      assume "nat (num_train_epochs cfg) = 0"
      then have "global_step st = 0" using f(1) by simp
      then show False using g by simp
    qed
    then have "int (nat (num_train_epochs cfg)) = num_train_epochs cfg" by simp
    then have eq: "gs = ?q * num_train_epochs cfg" using f(1) g by (simp add: mult.commute)
    show "gs = ?q * num_train_epochs cfg" by (rule eq)
    show "t_total_of (length tr) cfg = Inr gs" using a eq by (simp add: t_total_of_def)
    show "\<exists>st. train_run cfg col tr va w0 ls0 = Inr st \<and> global_step st = gs \<and>
          int (optimizer_steps st) = gs"
      using r g f(1,2) by auto
  }
  {
    assume h: "1 \<le> n_gpu cfg \<and> logging_steps cfg \<noteq> 0 \<and> va \<noteq> [] \<and>
      1 \<le> num_train_epochs cfg \<and> ?a \<le> int (length tr)"
    have "?a \<noteq> 0" using a by simp
    then obtain st where r: "train_run cfg col tr va w0 ls0 = Inr st"
      using train_run_total [of cfg va col tr w0 ls0] h by blast
    have "0 < ?q" using h a pos_imp_zdiv_pos_iff [of ?a "int (length tr)"] by simp
    then have "1 \<le> ?q" by simp
    have en: "int (nat (num_train_epochs cfg)) = num_train_epochs cfg" using h by simp
    have "0 < num_train_epochs cfg * ?q" using h \<open>1 \<le> ?q\<close> by (intro mult_pos_pos) auto
    then have "global_step st \<noteq> 0"
      using train_run_fields(1) [OF a r] unfolding en by linarith
    then show "\<exists>gs avg. train cfg col tr va w0 ls0 = Inr (gs, avg)"
      using r by (simp add: train_def)
  }
qed

theorem optimizer_steps_floor_per_epoch_witness:
  "\<exists>avg. train example_config example_collab [(), (), (), (), ()] [()] () 0 = Inr (4, avg)"
proof -
  note t = optimizer_steps_floor_per_epoch
    [of example_config example_collab _ "[(), (), (), (), ()]" "[()]" _ _ _ "()" 0]
  have "\<exists>gs avg. train example_config example_collab [(), (), (), (), ()] [()] () 0 = Inr (gs, avg)"
    using t by simp
  then obtain gs avg where
    r: "train example_config example_collab [(), (), (), (), ()] [()] () 0 = Inr (gs, avg)"
    by blast
  have "gs = 4"
    using optimizer_steps_floor_per_epoch
      [of example_config example_collab _ "[(), (), (), (), ()]" "[()]" _ _ _ "()" 0 gs avg] r
    by simp
  then show ?thesis using r by blast
qed

section \<open>Total step count and warm-up\<close>

lemma train_loop_scheduler_args:
  "train_loop cfg col t_total epoch k bs st = Inr st' \<Longrightarrow> scheduler_args st' = scheduler_args st"
proof (induction bs arbitrary: k st)
  case Nil
  then show ?case by simp
next
  case (Cons b bs)
  then obtain st1 where s1: "train_step cfg col t_total epoch k b st = Inr st1"
    and rest: "train_loop cfg col t_total epoch (Suc k) bs st1 = Inr st'"
    by (auto split: sum.splits)
  show ?case using Cons.IH [OF rest] train_step_fields(6) [OF s1] by simp
qed

lemma train_epoch_scheduler_args:
  assumes "train_epoch cfg col t_total tr va epoch st = Inr st'"
  shows "scheduler_args st' = scheduler_args st"
proof -
  obtain st2 where l: "train_loop cfg col t_total epoch 0 tr
      (st\<lparr>train_img_acc := 0, training_mode := True\<rparr>) = Inr st2"
    and v: "validate cfg col va st2 = Inr st'"
    using assms by (auto simp: train_epoch_def Let_def split: sum.splits)
  obtain m where m: "st' = st2\<lparr>training_mode := False, log := log st2 @ [m]\<rparr>"
    using validate_frame [OF v] by blast
  show ?thesis using train_loop_scheduler_args [OF l] m by simp
qed

lemma train_epochs_scheduler_args:
  "train_epochs cfg col t_total tr va e n st = Inr st' \<Longrightarrow>
     scheduler_args st' = scheduler_args st"
proof (induction n arbitrary: e st)
  case 0
  then show ?case by simp
next
  case (Suc n)
  then obtain st1 where e1: "train_epoch cfg col t_total tr va (int e) st = Inr st1"
    and rest: "train_epochs cfg col t_total tr va (Suc e) n st1 = Inr st'"
    by (auto split: sum.splits)
  show ?case using Suc.IH [OF rest] train_epoch_scheduler_args [OF e1] by simp
qed

lemma train_run_scheduler_args:
  assumes "train_run cfg col tr va w0 ls0 = Inr st"
  shows "scheduler_args st =
     (num_warmup_steps_of
        (int (length tr) div gradient_accumulation_steps cfg * num_train_epochs cfg),
      int (length tr) div gradient_accumulation_steps cfg * num_train_epochs cfg)"
proof -
  let ?tt = "int (length tr) div gradient_accumulation_steps cfg * num_train_epochs cfg"
  have a: "gradient_accumulation_steps cfg \<noteq> 0"
    using assms by (auto simp: train_run_def t_total_of_def split: if_splits)
  then have "train_epochs cfg col ?tt tr va 0 (nat (num_train_epochs cfg))
      (init_state col ?tt w0 ls0) = Inr st"
    using assms by (simp add: train_run_def t_total_of_def)
  then have "scheduler_args st = scheduler_args (init_state col ?tt w0 ls0)"
    by (rule train_epochs_scheduler_args)
  then show ?thesis by (simp add: init_state_def)
qed

lemma py_int_float_0_20_times:
  "0 \<le> t \<Longrightarrow> py_int (float_0_20_times t) = \<lfloor>float_0_20_times t\<rfloor>"
  "t < 0 \<Longrightarrow> py_int (float_0_20_times t) = \<lceil>float_0_20_times t\<rceil>"
proof -
  have d: "0 \<le> double_0_20" by (simp add: double_0_20_def)
  {
    assume "0 \<le> t"
    then have "0 \<le> double_0_20 * round_double (real_of_int t)"
      using d by (intro mult_nonneg_nonneg round_double_nonneg) simp_all
    then have "0 \<le> float_0_20_times t"
      unfolding float_0_20_times_def by (rule round_double_nonneg)
    then show "py_int (float_0_20_times t) = \<lfloor>float_0_20_times t\<rfloor>"
      by (simp add: py_int_def)
  }
  {
    assume "t < 0"
    then have "round_double (real_of_int t) \<le> 0" by (intro round_double_nonpos) simp
    then have "double_0_20 * round_double (real_of_int t) \<le> 0"
      using d by (simp add: mult_nonneg_nonpos)
    then have le: "float_0_20_times t \<le> 0"
      unfolding float_0_20_times_def by (rule round_double_nonpos)
    show "py_int (float_0_20_times t) = \<lceil>float_0_20_times t\<rceil>"
    proof (cases "float_0_20_times t = 0")
      case True
      then show ?thesis by (simp add: py_int_def)
    next
      case False
      then show ?thesis using le by (simp add: py_int_def)
    qed
  }
qed

text \<open>
  Claim C9, as amended. \<^verbatim>\<open>t_total\<close> is \<open>N div A * E\<close> whenever the accumulation factor is
  not 0 (the floor division raises when it is). For a \<^verbatim>\<open>t_total\<close> of magnitude below
  \<open>2 ^ 1023\<close>, the number of warm-up steps the scheduler is built with, and still has
  when the run returns, is \<^verbatim>\<open>int\<close> of the double product \<^verbatim>\<open>0.20 * t_total\<close>: the floor
  of that product when \<^verbatim>\<open>t_total\<close> is not negative, its ceiling when \<^verbatim>\<open>t_total\<close> is
  negative.
\<close>

theorem warmup_steps_truncate_double_product:
  assumes "\<bar>int (length tr) div gradient_accumulation_steps cfg * num_train_epochs cfg\<bar> < 2 ^ 1023"
  shows
   "t_total_of (length tr) cfg =
      (if gradient_accumulation_steps cfg = 0 then Inl ZeroDivisionError
       else Inr (int (length tr) div gradient_accumulation_steps cfg * num_train_epochs cfg)) \<and>
    scheduler_args (init_state col
        (int (length tr) div gradient_accumulation_steps cfg * num_train_epochs cfg) w0 ls0) =
      (py_int (float_0_20_times
          (int (length tr) div gradient_accumulation_steps cfg * num_train_epochs cfg)),
       int (length tr) div gradient_accumulation_steps cfg * num_train_epochs cfg) \<and>
    (train_run cfg col tr va w0 ls0 = Inr st \<longrightarrow>
       scheduler_args st =
         (py_int (float_0_20_times
             (int (length tr) div gradient_accumulation_steps cfg * num_train_epochs cfg)),
          int (length tr) div gradient_accumulation_steps cfg * num_train_epochs cfg)) \<and>
    (0 \<le> int (length tr) div gradient_accumulation_steps cfg * num_train_epochs cfg \<longrightarrow>
       py_int (float_0_20_times
           (int (length tr) div gradient_accumulation_steps cfg * num_train_epochs cfg)) =
         \<lfloor>float_0_20_times
           (int (length tr) div gradient_accumulation_steps cfg * num_train_epochs cfg)\<rfloor>) \<and>
    (int (length tr) div gradient_accumulation_steps cfg * num_train_epochs cfg < 0 \<longrightarrow>
       py_int (float_0_20_times
           (int (length tr) div gradient_accumulation_steps cfg * num_train_epochs cfg)) =
         \<lceil>float_0_20_times
           (int (length tr) div gradient_accumulation_steps cfg * num_train_epochs cfg)\<rceil>)"
proof (intro conjI impI)
  let ?tt = "int (length tr) div gradient_accumulation_steps cfg * num_train_epochs cfg"
  show "t_total_of (length tr) cfg =
      (if gradient_accumulation_steps cfg = 0 then Inl ZeroDivisionError else Inr ?tt)"
    by (simp add: t_total_of_def)
  show "scheduler_args (init_state col ?tt w0 ls0) = (py_int (float_0_20_times ?tt), ?tt)"
    by (simp add: init_state_def num_warmup_steps_of_def)
  show "scheduler_args st = (py_int (float_0_20_times ?tt), ?tt)"
    if "train_run cfg col tr va w0 ls0 = Inr st"
    using train_run_scheduler_args [OF that] by (simp add: num_warmup_steps_of_def)
  show "py_int (float_0_20_times ?tt) = \<lfloor>float_0_20_times ?tt\<rfloor>" if "0 \<le> ?tt"
    using that by (rule py_int_float_0_20_times(1))
  show "py_int (float_0_20_times ?tt) = \<lceil>float_0_20_times ?tt\<rceil>" if "?tt < 0"
    using that by (rule py_int_float_0_20_times(2))
qed

theorem warmup_steps_truncate_double_product_witness:
  "t_total_of 13 example_config = Inr 12 \<and>
   scheduler_args (init_state example_collab 12 () 0) = (2, 12) \<and>
   py_int (float_0_20_times 12) = 2"
proof -
  have f: "\<lfloor>float_0_20_times 12\<rfloor> = 2"
    unfolding float_0_20_times_twelve by (rule floor_unique) simp_all
  show ?thesis
    using warmup_steps_truncate_double_product
      [of "replicate 13 ()" example_config example_collab "()" 0] f
    by simp
qed

text \<open>
  The claim as first stated, with the floor of the exact product \<open>0.20 * t_total\<close>, fails
  in two ways. With one batch, an accumulation factor of 1 and \<open>-1\<close> epochs, \<^verbatim>\<open>t_total\<close>
  is \<open>-1\<close> and the scheduler gets 0 warm-up steps, where the floor is \<open>-1\<close>. With
  6755399441055744 batches, an accumulation factor of 1 and one epoch, the double
  product is rounded up to a whole number and the scheduler gets 1351079888211149
  warm-up steps, where the floor is 1351079888211148.
\<close>

theorem warmup_steps_not_floor:
  "t_total_of 1 \<lparr>n_gpu = 1, gradient_accumulation_steps = 1, num_train_epochs = - 1,
      logging_steps = 1, save_steps = 0\<rparr> = Inr (- 1) \<and>
   scheduler_args (init_state example_collab (- 1) () 0) = (0, - 1) \<and>
   \<lfloor>0.20 * real_of_int (- 1)\<rfloor> = - 1 \<and>
   t_total_of 6755399441055744 \<lparr>n_gpu = 1, gradient_accumulation_steps = 1,
      num_train_epochs = 1, logging_steps = 1, save_steps = 0\<rparr> = Inr 6755399441055744 \<and>
   scheduler_args (init_state example_collab 6755399441055744 () 0) =
     (1351079888211149, 6755399441055744) \<and>
   \<lfloor>0.20 * real_of_int 6755399441055744\<rfloor> = 1351079888211148"
  using exact_floor_minus_one exact_floor_big
  by (simp add: t_total_of_def init_state_def num_warmup_steps_minus_one num_warmup_steps_big)

section \<open>A run with no optimizer step\<close>

text \<open>
  Claim C10. When the training loader has fewer batches than the accumulation factor,
  no pass of the loop reaches \<^verbatim>\<open>(step + 1) % gradient_accumulation_steps == 0\<close>:
  \<^verbatim>\<open>global_step\<close> is still 0 at line 172 and \<^verbatim>\<open>train\<close> never returns its pair. When
  nothing fails before (there is a device and a validation batch), the run reaches
  line 172 and the error is the division by zero.
\<close>

theorem train_raises_when_no_boundary:
  assumes "int (length tr) < gradient_accumulation_steps cfg"
  shows
   "(\<exists>e. train cfg col tr va w0 ls0 = Inl e) \<and>
    (train_run cfg col tr va w0 ls0 = Inr st \<longrightarrow> global_step st = 0) \<and>
    (1 \<le> n_gpu cfg \<and> va \<noteq> [] \<longrightarrow>
       (\<exists>st. train_run cfg col tr va w0 ls0 = Inr st \<and> global_step st = 0) \<and>
       train cfg col tr va w0 ls0 = Inl ZeroDivisionError)"
proof -
  let ?a = "gradient_accumulation_steps cfg"
  have a: "0 < ?a" using assms by (smt (verit) of_nat_0_le_iff)
  have q: "int (length tr) div ?a = 0" using assms by simp
  have zero: "global_step st = 0" if "train_run cfg col tr va w0 ls0 = Inr st" for st
    using train_run_fields(1) [OF a that] q by simp
  have 1: "\<exists>e. train cfg col tr va w0 ls0 = Inl e"
    using zero by (auto simp: train_def split: sum.splits)
  have 3: "(\<exists>st. train_run cfg col tr va w0 ls0 = Inr st \<and> global_step st = 0) \<and>
       train cfg col tr va w0 ls0 = Inl ZeroDivisionError"
    if h: "1 \<le> n_gpu cfg \<and> va \<noteq> []"
  proof -
    obtain st where r: "train_run cfg col tr va w0 ls0 = Inr st"
      using train_run_short_total [of cfg tr va col w0 ls0] h assms by blast
    then show ?thesis using zero [OF r] by (auto simp: train_def)
  qed
  show ?thesis using 1 zero 3 by blast
qed

theorem train_raises_when_no_boundary_witness:
  "train example_config example_collab [()] [()] () 0 = Inl ZeroDivisionError"
  using train_raises_when_no_boundary [of "[()]" example_config example_collab "[()]" "()" 0]
  by simp

section \<open>The validation pass\<close>

text \<open>
  Claim C7. A validation pass that runs to its end leaves \<^verbatim>\<open>global_step\<close>,
  \<^verbatim>\<open>global_loss\<close>, the model's parameters, the gradients, the optimizer's and the
  scheduler's state, the raw \<^verbatim>\<open>logit_scale\<close>, the counts of optimizer and scheduler
  steps and the list of checkpoints as they were: it only switches the model to
  evaluation mode and logs one line. It runs to its end whenever there is a device and
  a validation batch.
\<close>

theorem validation_keeps_training_state:
  "(validate cfg col va st = Inr st' \<longrightarrow>
      global_step st' = global_step st \<and>
      global_loss st' = global_loss st \<and>
      learner st' = learner st \<and>
      logit_scale st' = logit_scale st \<and>
      optimizer_steps st' = optimizer_steps st \<and>
      scheduler_steps st' = scheduler_steps st \<and>
      scheduler_args st' = scheduler_args st \<and>
      train_img_acc st' = train_img_acc st \<and>
      checkpoints st' = checkpoints st) \<and>
   (1 \<le> n_gpu cfg \<and> va \<noteq> [] \<longrightarrow> (\<exists>st'. validate cfg col va st = Inr st'))"
proof (intro conjI impI)
  assume "1 \<le> n_gpu cfg \<and> va \<noteq> []"
  then show "\<exists>st'. validate cfg col va st = Inr st'"
    using validate_total [of cfg va col st] by blast
next
  assume "validate cfg col va st = Inr st'"
  then obtain m where m: "st' = st\<lparr>training_mode := False, log := log st @ [m]\<rparr>"
    using validate_frame by blast
  show "global_step st' = global_step st" "global_loss st' = global_loss st"
    "learner st' = learner st" "logit_scale st' = logit_scale st"
    "optimizer_steps st' = optimizer_steps st" "scheduler_steps st' = scheduler_steps st"
    "scheduler_args st' = scheduler_args st" "train_img_acc st' = train_img_acc st"
    "checkpoints st' = checkpoints st"
    by (simp_all add: m)
qed

theorem validation_keeps_training_state_witness:
  "\<exists>st'. validate example_config example_collab [(), ()] (init_state example_collab 4 () 3) = Inr st'
     \<and> global_step st' = 0 \<and> global_loss st' = 0 \<and> learner st' = () \<and> logit_scale st' = 3
     \<and> optimizer_steps st' = 0 \<and> scheduler_steps st' = 0"
proof -
  let ?st = "init_state example_collab 4 () 3"
  obtain st' where v: "validate example_config example_collab [(), ()] ?st = Inr st'"
    using validation_keeps_training_state [of example_config example_collab "[(), ()]" ?st]
    by auto
  show ?thesis
    using validation_keeps_training_state [of example_config example_collab "[(), ()]" ?st st'] v
    by (auto simp: init_state_def)
qed


section \<open>Checkpoints without a checkpoint interval\<close>

text \<open>
  Claim C6. With \<^verbatim>\<open>save_steps\<close> equal to 0, the body of an optimizer-step boundary
  raises nothing on account of \<^verbatim>\<open>save_steps\<close> (it returns whenever \<^verbatim>\<open>logging_steps\<close> is
  not 0) and calls \<^verbatim>\<open>save_checkpoint\<close> exactly when the new \<^verbatim>\<open>global_step\<close> is
  \<^verbatim>\<open>t_total\<close>. Over a whole run that returns, with an accumulation factor of at least
  1, \<^verbatim>\<open>save_checkpoint\<close> is called once, in the last epoch with
  \<^verbatim>\<open>global_step = t_total\<close>, when at least one optimizer step is due, and never
  otherwise.
\<close>

theorem save_steps_zero_saves_only_at_t_total:
  assumes "save_steps cfg = 0"
  shows
   "(logging_steps cfg \<noteq> 0 \<longrightarrow>
       (\<exists>st'. boundary cfg col t_total epoch st = Inr st' \<and>
          checkpoints st' =
            (if global_step st + 1 = t_total
             then checkpoints st @
               [(epoch, t_total,
                 save_checkpoint (torch_save col (length (checkpoints st))) epoch t_total)]
             else checkpoints st))) \<and>
    (1 \<le> gradient_accumulation_steps cfg \<and> train_run cfg col tr va w0 ls0 = Inr st1 \<longrightarrow>
       checkpoints st1 =
         (if 1 \<le> int (length tr) div gradient_accumulation_steps cfg \<and> 1 \<le> num_train_epochs cfg
          then [(num_train_epochs cfg - 1,
                 int (length tr) div gradient_accumulation_steps cfg * num_train_epochs cfg,
                 save_checkpoint (torch_save col 0) (num_train_epochs cfg - 1)
                   (int (length tr) div gradient_accumulation_steps cfg * num_train_epochs cfg))]
          else []))"
proof (intro conjI impI)
  assume l: "logging_steps cfg \<noteq> 0"
  then obtain st' where b: "boundary cfg col t_total epoch st = Inr st'"
    by (simp add: boundary_cases)
  show "\<exists>st'. boundary cfg col t_total epoch st = Inr st' \<and>
          checkpoints st' =
            (if global_step st + 1 = t_total
             then checkpoints st @
               [(epoch, t_total,
                 save_checkpoint (torch_save col (length (checkpoints st))) epoch t_total)]
             else checkpoints st)"
    using b boundary_checkpoints [OF b] assms by auto
next
  assume h: "1 \<le> gradient_accumulation_steps cfg \<and> train_run cfg col tr va w0 ls0 = Inr st1"
  have s: "save_steps cfg \<le> 0" using assms by simp
  have a: "0 < gradient_accumulation_steps cfg" using h by simp
  show "checkpoints st1 =
         (if 1 \<le> int (length tr) div gradient_accumulation_steps cfg \<and> 1 \<le> num_train_epochs cfg
          then [(num_train_epochs cfg - 1,
                 int (length tr) div gradient_accumulation_steps cfg * num_train_epochs cfg,
                 save_checkpoint (torch_save col 0) (num_train_epochs cfg - 1)
                   (int (length tr) div gradient_accumulation_steps cfg * num_train_epochs cfg))]
          else [])"
    using h by (intro train_run_checkpoints [OF s a, of col tr va w0 ls0 st1]) simp
qed

theorem save_steps_zero_saves_only_at_t_total_witness:
  "\<exists>st. train_run example_config example_collab [(), (), (), (), ()] [()] () 0 = Inr st \<and>
     checkpoints st =
       [(1, 4, \<lparr>save_num = 0, attempts = 1, msgs = [SaveCheckpointTo 1 4]\<rparr>)]"
proof -
  obtain st where
    r: "train_run example_config example_collab [(), (), (), (), ()] [()] () 0 = Inr st"
    using train_run_total [of example_config "[()]" example_collab "[(), (), (), (), ()]" "()" 0]
    by auto
  have ok: "first_ok (\<lambda>k. True) 10 = Some 0" by (rule first_ok_SomeI) simp_all
  have "checkpoints st =
       [(1, 4, \<lparr>save_num = 0, attempts = 1, msgs = [SaveCheckpointTo 1 4]\<rparr>)]"
    using save_steps_zero_saves_only_at_t_total
      [of example_config example_collab _ _ _ "[(), (), (), (), ()]" "[()]" "()" 0 st] r
    by (simp add: example_collab_def save_checkpoint_first_ok ok)
  then show ?thesis using r by blast
qed


section \<open>The first boundary of the small run\<close>

lemma example_boundary_step:
  "train_step example_config example_collab 4 0 (Suc 0) () (init_state example_collab 4 () 0) =
     Inr ((init_state example_collab 4 () 0)
        \<lparr>global_step := 1, logit_scale := 4.6052, optimizer_steps := 1, scheduler_steps := 1,
         log := [TrainLog 0 1]\<rparr>)"
  by (simp add: train_step_def boundary_def forward_backward_def init_state_def
      example_collab_def clamp_def Let_def)


section \<open>The clamp of \<^verbatim>\<open>logit_scale\<close>\<close>

text \<open>
  Claim C3 against the program. Lines 110 and 112 clamp the raw scale to the interval
  from 0 to 4.6052, and 4.6052 is above the logarithm of 100, which the comment of
  line 108 gives as the bound. In the small run the optimizer moves the raw scale from
  0 to 5 at the first boundary (the second batch of the first epoch): the step returns,
  the clamp stores 4.6052, and the stored value is more than the logarithm of 100.
\<close>

theorem logit_scale_above_ln_100:
  "\<not> isl (train_step example_config example_collab 4 0 (Suc 0) () (init_state example_collab 4 () 0)) \<and>
   \<not> logit_scale (projr (train_step example_config example_collab 4 0 (Suc 0) ()
           (init_state example_collab 4 () 0))) \<le> ln 100"
  using ln_100_less by (simp add: example_boundary_step)

section \<open>Normalisation of the embeddings\<close>

lemma normalize_row_zero_norm:
  "normalize_row (Fin 0) row =
     map (\<lambda>x. if x = 0 then NaN else if 0 < x then PInf else NInf) row"
  by (simp add: normalize_row_def)

lemma normalize_rows_nth:
  assumes "length norms = length m" "i < length m"
  shows "normalize_rows norms m ! i = normalize_row (norms ! i) (m ! i)"
  using assms by (simp add: normalize_rows_def)

text \<open>
  Claim C5, as amended. The normalisation step raises for no embedding matrix: the
  program has no test of the norm and no \<^verbatim>\<open>InvalidEmbedding\<close> error, and the step
  returns a matrix with as many rows. In a row whose norm is zero no entry of the
  result is a finite number: an entry that is 0 becomes \<open>nan\<close> (0/0), any other entry
  becomes the infinity of its sign.
\<close>

theorem normalization_never_raises:
  assumes "length norms = length m"
  shows
   "length (normalize_rows norms m) = length m \<and>
    (\<forall>i<length m. norms ! i = Fin 0 \<longrightarrow>
       normalize_rows norms m ! i =
         map (\<lambda>x. if x = 0 then NaN else if 0 < x then PInf else NInf) (m ! i) \<and>
       list_all (\<lambda>y. y = NaN \<or> y = PInf \<or> y = NInf) (normalize_rows norms m ! i))"
proof (intro conjI allI impI)
  show "length (normalize_rows norms m) = length m"
    using assms by (simp add: normalize_rows_def)
next
  fix i assume i: "i < length m" and z: "norms ! i = Fin 0"
  show r: "normalize_rows norms m ! i =
      map (\<lambda>x. if x = 0 then NaN else if 0 < x then PInf else NInf) (m ! i)"
    using normalize_rows_nth [OF assms i] z by (simp add: normalize_row_zero_norm)
  show "list_all (\<lambda>y. y = NaN \<or> y = PInf \<or> y = NInf) (normalize_rows norms m ! i)"
    unfolding r by (auto simp: list_all_iff)
qed

theorem normalization_never_raises_witness:
  "length (normalize_rows [Fin 1, Fin 0] [[1, 0], [1 / 10 ^ 30, 0]]) = 2 \<and>
   normalize_rows [Fin 1, Fin 0] [[1, 0], [1 / 10 ^ 30, 0]] ! 1 = [PInf, NaN]"
  using normalization_never_raises [of "[Fin 1, Fin 0]" "[[1, 0], [1 / 10 ^ 30, 0]]"]
  by (simp add: All_less_Suc2 numeral_2_eq_2)

text \<open>
  The claim as first stated fails on a matrix whose first row is zero, and so has the
  norm zero: the step returns, and the first row of what it returns is \<open>nan\<close> twice.
\<close>

theorem zero_norm_row_becomes_nan:
  "normalize_rows [Fin 0, Fin 1] [[0, 0], [1, 0]] = [[NaN, NaN], [Fin 1, Fin 0]]"
  by (simp add: normalize_rows_def normalize_row_def)

section \<open>The similarity matrix of the images\<close>

lemma shaped_nth: "shaped b d m \<Longrightarrow> i < b \<Longrightarrow> length (m ! i) = d"
  by (simp add: shaped_def list_all_length)

lemma mat_t_shaped:
  assumes "shaped b d m" "0 < b"
  shows "mat_t m = map (\<lambda>k. map (\<lambda>row. row ! k) m) [0..<d]"
proof -
  have "transpose m = map (\<lambda>k. map (\<lambda>j. m ! j ! k) [0..<length m]) [0..<d]"
  proof (rule transpose_rectangle)
    show "m = [] \<Longrightarrow> d = 0" using assms by (auto simp: shaped_def)
    show "\<And>i. i < length m \<Longrightarrow> length (m ! i) = d"
      using assms(1) by (simp add: shaped_def list_all_length)
  qed
  moreover have "map (\<lambda>j. m ! j ! k) [0..<length m] = map (\<lambda>row. row ! k) m" for k
  proof -
    have "map (\<lambda>row. row ! k) m = map (\<lambda>row. row ! k) (map (\<lambda>j. m ! j) [0..<length m])"
      by (simp only: map_nth)
    then show ?thesis by (simp add: comp_def)
  qed
  ultimately show ?thesis by (simp add: mat_t_def)
qed

lemma shaped_mat_t:
  assumes "shaped b d m" "0 < b"
  shows "shaped d b (mat_t m)"
  using assms by (simp add: mat_t_shaped [OF assms] shaped_def list_all_iff)

lemma mat_t_mat_t:
  assumes "shaped b d m" "0 < b" "0 < d"
  shows "mat_t (mat_t m) = m"
proof -
  have len: "length m = b" using assms(1) by (simp add: shaped_def)
  have "mat_t (mat_t m) = map (\<lambda>j. map (\<lambda>col. col ! j) (mat_t m)) [0..<b]"
    using shaped_mat_t [OF assms(1,2)] assms(3) by (rule mat_t_shaped)
  also have "\<dots> = map (\<lambda>j. map (\<lambda>k. m ! j ! k) [0..<d]) [0..<b]"
    using len by (simp add: mat_t_shaped [OF assms(1,2)] comp_def)
  also have "\<dots> = map (\<lambda>j. m ! j) [0..<b]"
  proof (rule map_cong [OF refl])
    fix j assume "j \<in> set [0..<b]"
    then have "length (m ! j) = d" using shaped_nth [OF assms(1)] by simp
    then show "map (\<lambda>k. m ! j ! k) [0..<d] = m ! j" by (metis map_nth)
  qed
  also have "\<dots> = m" using len by (metis map_nth)
  finally show ?thesis .
qed

lemma matmul_mat_t:
  assumes "shaped b d m" "0 < b" "0 < d"
  shows "matmul a (mat_t m) = map (\<lambda>row. map (\<lambda>r. dot row r) m) a"
  by (simp add: matmul_def mat_t_mat_t [OF assms])

lemma logits_per_image_rows:
  assumes "shaped b' d text_features" "0 < b'" "0 < d"
  shows "logits_per_image s image_features text_features =
     map (\<lambda>ri. map (\<lambda>rt. dot (map (\<lambda>x. s * x) ri) rt) text_features) image_features"
  by (simp add: logits_per_image_def matmul_mat_t [OF assms] scale_mat_def comp_def)

section \<open>The match count\<close>

lemma example_logits:
  "logits_per_image 1 [[1, 0], [0, 1]] [[1, 0], [3 / 5, 4 / 5]] =
     [[1, 3 / 5], [0, 4 / 5]]"
proof -
  have "shaped 2 2 [[1, 0], [3 / 5, 4 / 5 :: real]]" by (simp add: shaped_def)
  then show ?thesis by (simp add: logits_per_image_rows [of 2 2] dot_def)
qed

lemma acc_increment_le_one:
  assumes "acc_increment logits = Inr a"
  shows "a \<le> 1"
proof -
  obtain k where "a = length (filter (\<lambda>l. k = l) [0..<length logits])"
    using assms by (auto simp: acc_increment_def labels_of_def split: sum.splits)
  moreover have "length (filter (\<lambda>l. k = l) [0..<n]) \<le> 1" for n
    by (induction n) auto
  ultimately show ?thesis by simp
qed


text \<open>
  Claim C1 against the program. Take the normalised features \<open>[[1, 0], [0, 1]]\<close> for the
  images and \<open>[[1, 0], [3/5, 4/5]]\<close> for the texts, with a raw scale of 0. The logits are
  \<open>[[1, 3/5], [0, 4/5]]\<close>: each row has its largest entry on the diagonal, so two rows
  match. Line 88 adds 1: the index of the largest entry of the whole matrix is 0, and
  one label equals 0.
\<close>

theorem whole_matrix_argmax_counts_one:
  "acc_increment (logits_per_image (exp 0) [[1, 0], [0, 1]] [[1, 0], [3 / 5, 4 / 5]]) = Inr 1 \<and>
   spec_rowwise_matches (logits_per_image (exp 0) [[1, 0], [0, 1]] [[1, 0], [3 / 5, 4 / 5]]) = 2"
  by (simp add: example_logits acc_increment_def argmax_def labels_of_def
      spec_rowwise_matches_def upt_conv_Cons numeral_2_eq_2)

end
